theory Spec2Isabelle
  imports Main "HOL-Library.AList"
begin

section \<open>JavaScript maps\<close>

text \<open>
  Every table of the program (\<^verbatim>\<open>rooms\<close>, \<^verbatim>\<open>room.users\<close>, \<^verbatim>\<open>userSessions\<close>,
  \<^verbatim>\<open>activeRooms\<close>, \<^verbatim>\<open>translationCache\<close>) is a JavaScript \<^verbatim>\<open>Map\<close>: its keys are unique
  and it is iterated in insertion order. It is modelled as an association list in
  insertion order. \<^verbatim>\<open>set\<close> on a key that is present replaces the value where it stands,
  on a new key it appends; \<^verbatim>\<open>delete\<close> removes the key; \<^verbatim>\<open>keys().next().value\<close> is the
  first key, or \<^verbatim>\<open>undefined\<close> on an empty map.
\<close>

type_synonym ('k, 'v) js_map = "('k \<times> 'v) list"

definition Map_get :: "('k, 'v) js_map \<Rightarrow> 'k \<Rightarrow> 'v option" where
  "Map_get m k = map_of m k"

definition Map_has :: "('k, 'v) js_map \<Rightarrow> 'k \<Rightarrow> bool" where
  "Map_has m k = (map_of m k \<noteq> None)"

definition Map_set :: "('k, 'v) js_map \<Rightarrow> 'k \<Rightarrow> 'v \<Rightarrow> ('k, 'v) js_map" where
  "Map_set m k v = AList.update k v m"

definition Map_delete :: "('k, 'v) js_map \<Rightarrow> 'k \<Rightarrow> ('k, 'v) js_map" where
  "Map_delete m k = AList.delete k m"

definition Map_size :: "('k, 'v) js_map \<Rightarrow> nat" where
  "Map_size m = length m"

definition Map_first_key :: "('k, 'v) js_map \<Rightarrow> 'k option" where
  "Map_first_key m = (case m of [] \<Rightarrow> None | (k, _) # _ \<Rightarrow> Some k)"

definition Map_keys :: "('k, 'v) js_map \<Rightarrow> 'k list" where
  "Map_keys m = map fst m"

text \<open>The keys of a JavaScript map are unique.\<close>

definition is_Map :: "('k, 'v) js_map \<Rightarrow> bool" where
  "is_Map m = distinct (map fst m)"

section \<open>The provider chain (\<^verbatim>\<open>translateWithFreeServices\<close>, both server files)\<close>

text \<open>
  The two server files define the same chain:
  \<^verbatim>\<open>
  async function translateWithFreeServices(text, sourceLang, targetLang) {
      const services = [
          () => translateWithLibreTranslate(text, sourceLang, targetLang),
          () => translateWithMyMemory(text, sourceLang, targetLang),
          () => translateWithLingva(text, sourceLang, targetLang)
      ];
      for (const service of services) {
          try {
              const result = await service();
              if (result) return result;
          } catch (error) {
              console.warn('Translation service failed, trying next:', error.message);
          }
      }
      throw new Error('All translation services failed');
  }
  \<close>
  The three services are HTTP calls. What a call does is the network's business, so the
  settled promise of a call is a parameter: it rejects (an HTTP error, a malformed answer,
  an exception, and in the second server file the 10 s timeout of axios), or it resolves
  to the field that the service reads from the answer, a string or \<^verbatim>\<open>undefined\<close> when
  the field is missing. A call that never settles (the first server file sets no
  timeout on \<^verbatim>\<open>fetch\<close>) is outside the model.
\<close>

datatype service = LibreTranslate | MyMemory | Lingva

datatype outcome = Rejects | Resolves "string option"

type_synonym provider = "service \<Rightarrow> string \<Rightarrow> string \<Rightarrow> string \<Rightarrow> outcome"

text \<open>JavaScript truthiness of a string or \<^verbatim>\<open>undefined\<close>: only a non-empty string is truthy.\<close>

fun truthy :: "string option \<Rightarrow> bool" where
  "truthy None = False"
| "truthy (Some s) = (s \<noteq> [])"

definition services :: "service list" where
  "services = [LibreTranslate, MyMemory, Lingva]"

text \<open>
  The loop over the services. The result is the list of the services that were called,
  in the order of the calls, and either the returned translation (\<open>Inr\<close>) or the
  message of the error thrown after the loop (\<open>Inl\<close>).
\<close>

fun try_services :: "(service \<Rightarrow> outcome) \<Rightarrow> service list \<Rightarrow> service list \<times> (string + string)" where
  "try_services call [] = ([], Inl ''All translation services failed'')"
| "try_services call (sv # rest) =
     (case call sv of
        Resolves (Some result) \<Rightarrow>
          if truthy (Some result) then ([sv], Inr result)
          else (let (called, r) = try_services call rest in (sv # called, r))
      | Resolves None \<Rightarrow> (let (called, r) = try_services call rest in (sv # called, r))
      | Rejects \<Rightarrow> (let (called, r) = try_services call rest in (sv # called, r)))"

definition translateWithFreeServices ::
  "provider \<Rightarrow> string \<Rightarrow> string \<Rightarrow> string \<Rightarrow> service list \<times> (string + string)" where
  "translateWithFreeServices net text sourceLang targetLang =
     try_services (\<lambda>sv. net sv text sourceLang targetLang) services"

text \<open>A call of a service succeeded for the chain when it resolved to a truthy value.\<close>

fun succeeded :: "outcome \<Rightarrow> bool" where
  "succeeded Rejects = False"
| "succeeded (Resolves r) = truthy r"

text \<open>
  A call of a service failed when its promise rejected (an error or a timeout) or its
  answer held no translation.
\<close>

fun failed :: "outcome \<Rightarrow> bool" where
  "failed Rejects = True"
| "failed (Resolves None) = True"
| "failed (Resolves (Some translation)) = False"

section \<open>Emitted events\<close>

text \<open>
  A handler's visible behaviour is the sequence of what it does to the outside: calls of
  translation services and emitted socket events. Events are addressed as the source
  addresses them: \<^verbatim>\<open>socket.emit\<close> answers the connection itself, \<^verbatim>\<open>io.to(x).emit\<close> sends to
  everything in the socket.io room \<^verbatim>\<open>x\<close> (a connection's own identifier names the room
  that holds just that connection), and \<^verbatim>\<open>socket.to(x).emit\<close> sends to the room \<^verbatim>\<open>x\<close>
  except the connection itself.
\<close>

datatype target = Self string | To string | Others string string

fun dest :: "target \<Rightarrow> string" where
  "dest (Self sid) = sid"
| "dest (To x) = x"
| "dest (Others x sid) = x"

datatype 'e action = Invoke service string string string | Emit target 'e

text \<open>The events emitted to \<open>x\<close>, and the service calls, in a sequence of actions.\<close>

fun events_to :: "string \<Rightarrow> 'e action list \<Rightarrow> 'e list" where
  "events_to x [] = []"
| "events_to x (Invoke sv t a b # as) = events_to x as"
| "events_to x (Emit tg e # as) = (if dest tg = x then e # events_to x as else events_to x as)"

fun invocations :: "'e action list \<Rightarrow> (service \<times> string \<times> string \<times> string) list" where
  "invocations [] = []"
| "invocations (Invoke sv t a b # as) = (sv, t, a, b) # invocations as"
| "invocations (Emit tg e # as) = invocations as"

text \<open>
  What the outside answers while one utterance is relayed: the settled promise of each
  service call made for a recipient, and the time read when the recipient's event is built
  (\<^verbatim>\<open>new Date().toISOString()\<close>). Both are indexed by the recipient, so that two
  recipients, even of one language, may see different answers.
\<close>

record world =
  net :: "string \<Rightarrow> provider"
  clock :: "string \<Rightarrow> int"

section \<open>The first server file\<close>

text \<open>
  \<^verbatim>\<open>const rooms = new Map(); const userSessions = new Map();\<close>
  A room is \<^verbatim>\<open>{ id, users: new Map(), createdAt }\<close>, a member of \<^verbatim>\<open>room.users\<close> is
  \<^verbatim>\<open>{ userName, userLanguage, joinedAt }\<close>, a session is
  \<^verbatim>\<open>{ roomId, userName, userLanguage }\<close>. Connection identifiers (\<^verbatim>\<open>socket.id\<close>), room
  identifiers, names and languages are strings; dates are integers.
\<close>

record member =
  userName :: string
  userLanguage :: string

record userInfo = member +
  joinedAt :: int

record session = member +
  roomId :: string

record room =
  room_id :: string
  users :: "(string, userInfo) js_map"
  createdAt :: int

record server =
  rooms :: "(string, room) js_map"
  userSessions :: "(string, session) js_map"

definition init_server :: server where
  "init_server = \<lparr>rooms = [], userSessions = []\<rparr>"

record translation_payload =
  originalText :: string
  translatedText :: string
  speakerName :: string
  sourceLanguage :: string
  targetLanguage :: string
  timestamp :: int

record live_translation = translation_payload +
  error :: "string option"

datatype event =
    UserLeft string string
  | RoomJoined string "(string \<times> string \<times> string) list"
  | UserJoined string string string
  | LiveTranslation live_translation
  | NewMessage string string int
  | UserLanguageChanged string string string string

text \<open>
  \<^verbatim>\<open>UserLeft userName userId\<close>, \<^verbatim>\<open>RoomJoined roomId users\<close> with \<^verbatim>\<open>users\<close> the list of
  \<^verbatim>\<open>(id, name, language)\<close>, \<^verbatim>\<open>UserJoined userName userLanguage userId\<close>,
  \<^verbatim>\<open>NewMessage originalText speakerName timestamp\<close>,
  \<^verbatim>\<open>UserLanguageChanged userName userId oldLanguage newLanguage\<close>.

  The block that takes a connection out of a room is the same in \<^verbatim>\<open>join-room\<close> (for the
  previous session) and in \<^verbatim>\<open>disconnect\<close>:
  \<^verbatim>\<open>
  if (rooms.has(prevSession.roomId)) {
      const room = rooms.get(prevSession.roomId);
      room.users.delete(socket.id);
      socket.to(prevSession.roomId).emit('user-left', {
          userName: prevSession.userName, userId: socket.id });
      if (room.users.size === 0) {
          rooms.delete(prevSession.roomId);
      }
  }
  \<close>
  The room object is changed in place, so the registry holds the changed room at the
  position of the old one.
\<close>

definition leave_room ::
  "string \<Rightarrow> session \<Rightarrow> (string, room) js_map \<Rightarrow> (string, room) js_map \<times> event action list" where
  "leave_room sid prevSession rs =
     (case Map_get rs (roomId prevSession) of
        None \<Rightarrow> (rs, [])
      | Some room \<Rightarrow>
          (let room' = room\<lparr>users := Map_delete (users room) sid\<rparr>
           in (if Map_size (users room') = 0 then Map_delete rs (roomId prevSession)
               else Map_set rs (roomId prevSession) room',
               [Emit (Others (roomId prevSession) sid) (UserLeft (userName prevSession) sid)])))"

text \<open>
  \<^verbatim>\<open>socket.on('join-room', (data) => { const { roomId, userName, userLanguage } = data; ... })\<close>
  for the connection \<open>sid\<close>, with \<open>now\<close> the value of \<^verbatim>\<open>new Date()\<close>.
\<close>

definition join_room ::
  "int \<Rightarrow> string \<Rightarrow> string \<Rightarrow> string \<Rightarrow> string \<Rightarrow> server \<Rightarrow> server \<times> event action list" where
  "join_room now sid rid uname ulang s =
     (let (rooms1, left) =
            (case Map_get (userSessions s) sid of
               None \<Rightarrow> (rooms s, [])
             | Some prevSession \<Rightarrow> leave_room sid prevSession (rooms s));
          room = (case Map_get rooms1 rid of
                    Some r \<Rightarrow> r
                  | None \<Rightarrow> \<lparr>room_id = rid, users = [], createdAt = now\<rparr>);
          room' = room\<lparr>users := Map_set (users room) sid
                           \<lparr>userName = uname, userLanguage = ulang, joinedAt = now\<rparr>\<rparr>
      in (\<lparr>rooms = Map_set rooms1 rid room',
           userSessions = Map_set (userSessions s) sid
                            \<lparr>userName = uname, userLanguage = ulang, roomId = rid\<rparr>\<rparr>,
          left @
          [Emit (Self sid)
             (RoomJoined rid (map (\<lambda>(i, info). (i, userName info, userLanguage info)) (users room'))),
           Emit (Others rid sid) (UserJoined uname ulang sid)]))"

text \<open>\<^verbatim>\<open>socket.on('disconnect', () => { ... })\<close>\<close>

definition disconnect :: "string \<Rightarrow> server \<Rightarrow> server \<times> event action list" where
  "disconnect sid s =
     (case Map_get (userSessions s) sid of
        None \<Rightarrow> (s, [])
      | Some session \<Rightarrow>
          (let (rooms1, left) = leave_room sid session (rooms s)
           in (\<lparr>rooms = rooms1, userSessions = Map_delete (userSessions s) sid\<rparr>, left)))"

text \<open>\<^verbatim>\<open>socket.on('change-language', (data) => { ... const { language } = data; ... })\<close>\<close>

definition change_language :: "string \<Rightarrow> string \<Rightarrow> server \<Rightarrow> server \<times> event action list" where
  "change_language sid language s =
     (case Map_get (userSessions s) sid of
        None \<Rightarrow> (s, [])
      | Some session \<Rightarrow>
          (let oldLanguage = userLanguage session;
               sessions1 = Map_set (userSessions s) sid (session\<lparr>userLanguage := language\<rparr>)
           in (case Map_get (rooms s) (roomId session) of
                 None \<Rightarrow> (s\<lparr>userSessions := sessions1\<rparr>, [])
               | Some room \<Rightarrow>
                   (case Map_get (users room) sid of
                      None \<Rightarrow> (s\<lparr>userSessions := sessions1\<rparr>, [])
                    | Some info \<Rightarrow>
                        (\<lparr>rooms = Map_set (rooms s) (roomId session)
                                   (room\<lparr>users := Map_set (users room) sid
                                                     (info\<lparr>userLanguage := language\<rparr>)\<rparr>),
                          userSessions = sessions1\<rparr>,
                         [Emit (Others (roomId session) sid)
                            (UserLanguageChanged (userName session) sid oldLanguage language)])))))"

text \<open>
  The body of the loop of \<^verbatim>\<open>socket.on('live-speech', ...)\<close> for one entry
  \<^verbatim>\<open>[userId, userInfo]\<close> of \<^verbatim>\<open>room.users\<close>:
  \<^verbatim>\<open>
  if (userId === socket.id) continue; // Skip sender
  if (userInfo.userLanguage !== sourceLanguage) {
      try {
          const translatedText = await translateWithFreeServices(
              text, sourceLanguage, userInfo.userLanguage);
          io.to(userId).emit('live-translation', { originalText: text, translatedText,
              speakerName: session.userName, sourceLanguage,
              targetLanguage: userInfo.userLanguage, timestamp: new Date().toISOString() });
      } catch (error) {
          io.to(userId).emit('live-translation', { originalText: text,
              translatedText: text, // Fallback to original
              speakerName: session.userName, sourceLanguage,
              targetLanguage: userInfo.userLanguage, timestamp: new Date().toISOString(),
              error: 'Translation failed' });
      }
  } else {
      // Same language, send original
      io.to(userId).emit('new-message', { originalText: text,
          speakerName: session.userName, timestamp: new Date().toISOString() });
  }
  \<close>
\<close>

definition relay ::
  "world \<Rightarrow> string \<Rightarrow> session \<Rightarrow> string \<Rightarrow> string \<Rightarrow> string \<times> userInfo \<Rightarrow> event action list" where
  "relay w sid session text srcLanguage entry =
     (let userId = fst entry; info = snd entry
      in if userId = sid then []
         else if userLanguage info \<noteq> srcLanguage then
           (let (called, res) =
                  translateWithFreeServices (net w userId) text srcLanguage (userLanguage info);
                payload = \<lparr>originalText = text, translatedText = text,
                           speakerName = userName session, sourceLanguage = srcLanguage,
                           targetLanguage = userLanguage info, timestamp = clock w userId,
                           error = None\<rparr>
            in map (\<lambda>sv. Invoke sv text srcLanguage (userLanguage info)) called @
               [Emit (To userId)
                  (LiveTranslation
                     (case res of
                        Inr translated \<Rightarrow> payload\<lparr>translatedText := translated\<rparr>
                      | Inl err \<Rightarrow> payload\<lparr>error := Some ''Translation failed''\<rparr>))])
         else [Emit (To userId) (NewMessage text (userName session) (clock w userId))])"

text \<open>
  \<^verbatim>\<open>socket.on('live-speech', async (data) => { ... const { text, sourceLanguage } = data; ... })\<close>
  The handler changes neither table. It is modelled as one uninterrupted run: the
  messages that other connections send while it awaits a service are not interleaved.
  The outer \<^verbatim>\<open>catch\<close>, which answers the sender with an \<^verbatim>\<open>error\<close> event, is reached only
  when the body throws, and on a message with its two fields nothing in the body does.
\<close>

definition live_speech ::
  "world \<Rightarrow> string \<Rightarrow> string \<Rightarrow> string \<Rightarrow> server \<Rightarrow> event action list" where
  "live_speech w sid text srcLanguage s =
     (case Map_get (userSessions s) sid of
        None \<Rightarrow> []
      | Some session \<Rightarrow>
          (case Map_get (rooms s) (roomId session) of
             None \<Rightarrow> []
           | Some room \<Rightarrow> concat (map (relay w sid session text srcLanguage) (users room))))"

text \<open>
  \<^verbatim>\<open>app.get('/api/room/:roomId', ...)\<close>: status 404 with \<^verbatim>\<open>{ error: 'Room not found' }\<close>,
  or the room's identifier, member count, members \<^verbatim>\<open>(id, name, language, joinedAt)\<close> and
  creation date.
\<close>

datatype room_info =
    NotFound string
  | RoomInfo string nat "(string \<times> string \<times> string \<times> int) list" int

definition api_get_room :: "string \<Rightarrow> server \<Rightarrow> room_info" where
  "api_get_room rid s =
     (case Map_get (rooms s) rid of
        None \<Rightarrow> NotFound ''Room not found''
      | Some room \<Rightarrow>
          RoomInfo rid (Map_size (users room))
            (map (\<lambda>(i, info). (i, userName info, userLanguage info, joinedAt info)) (users room))
            (createdAt room))"

text \<open>
  \<^verbatim>\<open>app.post('/api/room', ...)\<close>:
  \<^verbatim>\<open>
  const roomId = uuidv4().substring(0, 8).toUpperCase();
  rooms.set(roomId, { id: roomId, users: new Map(), createdAt: new Date() });
  res.json({ roomId });
  \<close>
  The fresh UUID is a parameter. A UUID is made of hexadecimal digits and hyphens, so
  \<^verbatim>\<open>toUpperCase\<close> is modelled on the letters \<^verbatim>\<open>a\<close> to \<^verbatim>\<open>z\<close>.
\<close>

definition toUpperCase :: "string \<Rightarrow> string" where
  "toUpperCase str =
     map (\<lambda>c. case map_of (zip ''abcdefghijklmnopqrstuvwxyz'' ''ABCDEFGHIJKLMNOPQRSTUVWXYZ'') c of
                 Some upper \<Rightarrow> upper
               | None \<Rightarrow> c) str"

definition api_post_room :: "string \<Rightarrow> int \<Rightarrow> server \<Rightarrow> server \<times> string" where
  "api_post_room uuid now s =
     (let rid = toUpperCase (take 8 uuid)
      in (s\<lparr>rooms := Map_set (rooms s) rid \<lparr>room_id = rid, users = [], createdAt = now\<rparr>\<rparr>, rid))"

text \<open>
  The messages of a connection that are modelled, and their dispatch to the handlers
  registered in \<^verbatim>\<open>io.on('connection', (socket) => { ... })\<close>. \<open>now\<close> is the date read by
  \<^verbatim>\<open>join-room\<close>, \<open>w\<close> what the outside answers during \<^verbatim>\<open>live-speech\<close>. The fifth
  handler, \<^verbatim>\<open>conversation-message\<close>, reads the tables and changes neither; it is not
  modelled.
\<close>

datatype message =
    JoinRoom string string string
  | LiveSpeech string string
  | ChangeLanguage string
  | Disconnect

fun handle :: "world \<Rightarrow> int \<Rightarrow> string \<Rightarrow> message \<Rightarrow> server \<Rightarrow> server \<times> event action list" where
  "handle w now sid (JoinRoom rid uname ulang) s = join_room now sid rid uname ulang s"
| "handle w now sid (LiveSpeech text srcLanguage) s = (s, live_speech w sid text srcLanguage s)"
| "handle w now sid (ChangeLanguage language) s = change_language sid language s"
| "handle w now sid Disconnect s = disconnect sid s"

section \<open>The second server file\<close>

text \<open>
  \<^verbatim>\<open>const activeRooms = new Map(); const userSessions = new Map();\<close>
  Here a room is the map of its members itself, and a session is
  \<^verbatim>\<open>{ roomId, userName, userLanguage, joinedAt }\<close>.
\<close>

record session2 = session +
  sessionJoinedAt :: int

record server2 =
  activeRooms :: "(string, (string, userInfo) js_map) js_map"
  userSessions2 :: "(string, session2) js_map"

definition init_server2 :: server2 where
  "init_server2 = \<lparr>activeRooms = [], userSessions2 = []\<rparr>"

record live_translation2 = translation_payload +
  speakerId :: string
  isInterim :: bool

datatype event2 =
    UserJoined2 string string "string option" int
  | RoomJoined2 string "(string, userInfo) js_map" string
  | LiveTranslation2 live_translation2
  | UserLanguageChanged2 string string string int
  | UserLeft2 string string int

text \<open>
  \<^verbatim>\<open>UserJoined2 userId userName userLanguage timestamp\<close>,
  \<^verbatim>\<open>RoomJoined2 roomId users message\<close>,
  \<^verbatim>\<open>UserLanguageChanged2 userId userName newLanguage timestamp\<close>,
  \<^verbatim>\<open>UserLeft2 userId userName timestamp\<close>.

  \<^verbatim>\<open>
  function updateRoomUsers(roomId, userId, action) {
    if (!activeRooms.has(roomId)) {
      activeRooms.set(roomId, new Map());
    }
    const room = activeRooms.get(roomId);
    if (action === 'join') {
      const userSession = userSessions.get(userId);
      if (userSession) {
        room.set(userId, { userName: userSession.userName,
          userLanguage: userSession.userLanguage, joinedAt: userSession.joinedAt });
      }
    } else if (action === 'leave') {
      room.delete(userId);
      // Clean up empty rooms
      if (room.size === 0) {
        activeRooms.delete(roomId);
      }
    }
  }
  function getRoomUsers(roomId) {
    return activeRooms.get(roomId) || new Map();
  }
  \<close>
\<close>

definition updateRoomUsers :: "string \<Rightarrow> string \<Rightarrow> string \<Rightarrow> server2 \<Rightarrow> server2" where
  "updateRoomUsers rid userId action s =
     (let rooms1 = (if \<not> Map_has (activeRooms s) rid then Map_set (activeRooms s) rid []
                    else activeRooms s);
          room = (case Map_get rooms1 rid of Some r \<Rightarrow> r | None \<Rightarrow> [])
      in if action = ''join'' then
           (case Map_get (userSessions2 s) userId of
              Some userSession \<Rightarrow>
                s\<lparr>activeRooms := Map_set rooms1 rid
                     (Map_set room userId
                        \<lparr>userName = userName userSession,
                         userLanguage = userLanguage userSession,
                         joinedAt = sessionJoinedAt userSession\<rparr>)\<rparr>
            | None \<Rightarrow> s\<lparr>activeRooms := rooms1\<rparr>)
         else if action = ''leave'' then
           (let room' = Map_delete room userId
            in if Map_size room' = 0 then s\<lparr>activeRooms := Map_delete rooms1 rid\<rparr>
               else s\<lparr>activeRooms := Map_set rooms1 rid room'\<rparr>)
         else s\<lparr>activeRooms := rooms1\<rparr>)"

definition getRoomUsers :: "string \<Rightarrow> server2 \<Rightarrow> (string, userInfo) js_map" where
  "getRoomUsers rid s = (case Map_get (activeRooms s) rid of Some r \<Rightarrow> r | None \<Rightarrow> [])"

text \<open>\<^verbatim>\<open>a || b\<close> on a string that may be \<^verbatim>\<open>undefined\<close>.\<close>

fun or_else :: "string option \<Rightarrow> string \<Rightarrow> string" where
  "or_else None d = d"
| "or_else (Some v) d = (if truthy (Some v) then v else d)"

text \<open>
  \<^verbatim>\<open>socket.on('join-room', (data) => { const { roomId, userName, userLanguage } = data; ... })\<close>
  \<^verbatim>\<open>
  if (userSessions.has(socket.id)) {
    const oldRoom = userSessions.get(socket.id).roomId;
    socket.leave(oldRoom);
    updateRoomUsers(oldRoom, socket.id, 'leave');
  }
  socket.join(roomId);
  userSessions.set(socket.id, { roomId,
    userName: userName || `User${Math.floor(Math.random() * 1000)}`,
    userLanguage: userLanguage || 'en', joinedAt: new Date().toISOString() });
  updateRoomUsers(roomId, socket.id, 'join');
  socket.to(roomId).emit('user-joined', { userId: socket.id,
    userName: userSessions.get(socket.id).userName, userLanguage: userLanguage,
    timestamp: new Date().toISOString() });
  socket.emit('room-joined', { roomId, users: getRoomUsers(roomId),
    message: 'Connected to conversation room' });
  \<close>
  The name and the language of the message may be missing. The generated name
  \<^verbatim>\<open>User<random>\<close> is the parameter \<open>generated\<close>.
\<close>

definition join_room2 ::
  "int \<Rightarrow> string \<Rightarrow> string \<Rightarrow> string \<Rightarrow> string option \<Rightarrow> string option \<Rightarrow> server2
     \<Rightarrow> server2 \<times> event2 action list" where
  "join_room2 now generated sid rid uname ulang s =
     (let s1 = (case Map_get (userSessions2 s) sid of
                  Some old \<Rightarrow> updateRoomUsers (roomId old) sid ''leave'' s
                | None \<Rightarrow> s);
          newSession = \<lparr>userName = or_else uname generated, userLanguage = or_else ulang ''en'',
                        roomId = rid, sessionJoinedAt = now\<rparr>;
          s2 = s1\<lparr>userSessions2 := Map_set (userSessions2 s1) sid newSession\<rparr>;
          s3 = updateRoomUsers rid sid ''join'' s2
      in (s3,
          [Emit (Others rid sid) (UserJoined2 sid (userName newSession) ulang now),
           Emit (Self sid)
             (RoomJoined2 rid (getRoomUsers rid s3) ''Connected to conversation room'')]))"

text \<open>
  The body of the loop of \<^verbatim>\<open>socket.on('live-speech', ...)\<close> for one entry
  \<^verbatim>\<open>[userId, userInfo]\<close> of \<^verbatim>\<open>roomUsers\<close>:
  \<^verbatim>\<open>
  if (userId === socket.id) continue; // Don't send to self
  const targetLang = userInfo.userLanguage;
  if (targetLang === sourceLanguage) continue; // Same language
  try {
    const translation = await translateWithFreeServices(text, sourceLanguage, targetLang);
    socket.to(userId).emit('live-translation', { originalText: text,
      translatedText: translation, sourceLanguage, targetLanguage: targetLang,
      speakerName: userSession.userName, speakerId: socket.id, isInterim,
      timestamp: new Date().toISOString() });
  } catch (error) {
    console.error('Translation error for user', userId, error);
  }
  \<close>
\<close>

definition relay2 ::
  "world \<Rightarrow> string \<Rightarrow> session2 \<Rightarrow> string \<Rightarrow> bool \<Rightarrow> string \<times> userInfo \<Rightarrow> event2 action list" where
  "relay2 w sid userSession text interim entry =
     (let userId = fst entry; info = snd entry;
          srcLanguage = userLanguage userSession; targetLang = userLanguage info
      in if userId = sid then []
         else if targetLang = srcLanguage then []
         else
           (let (called, res) = translateWithFreeServices (net w userId) text srcLanguage targetLang
            in map (\<lambda>sv. Invoke sv text srcLanguage targetLang) called @
               (case res of
                  Inr translation \<Rightarrow>
                    [Emit (Others userId sid)
                       (LiveTranslation2
                          \<lparr>originalText = text, translatedText = translation,
                           speakerName = userName userSession, sourceLanguage = srcLanguage,
                           targetLanguage = targetLang, timestamp = clock w userId,
                           speakerId = sid, isInterim = interim\<rparr>)]
                | Inl err \<Rightarrow> [])))"

text \<open>
  \<^verbatim>\<open>socket.on('live-speech', async (data) => { ...
     const { text, isInterim, targetLanguages } = data;
     const sourceLanguage = userSession.userLanguage;
     const roomUsers = getRoomUsers(userSession.roomId); ... })\<close>
\<close>

definition live_speech2 :: "world \<Rightarrow> string \<Rightarrow> string \<Rightarrow> bool \<Rightarrow> server2 \<Rightarrow> event2 action list" where
  "live_speech2 w sid text interim s =
     (case Map_get (userSessions2 s) sid of
        None \<Rightarrow> []
      | Some userSession \<Rightarrow>
          concat (map (relay2 w sid userSession text interim) (getRoomUsers (roomId userSession) s)))"

text \<open>
  \<^verbatim>\<open>socket.on('change-language', (data) => { ... })\<close>: only the session is changed, the
  member entry in the room keeps the language it was joined with.
\<close>

definition change_language2 ::
  "int \<Rightarrow> string \<Rightarrow> string \<Rightarrow> server2 \<Rightarrow> server2 \<times> event2 action list" where
  "change_language2 now sid language s =
     (case Map_get (userSessions2 s) sid of
        None \<Rightarrow> (s, [])
      | Some userSession \<Rightarrow>
          (s\<lparr>userSessions2 := Map_set (userSessions2 s) sid (userSession\<lparr>userLanguage := language\<rparr>)\<rparr>,
           [Emit (Others (roomId userSession) sid)
              (UserLanguageChanged2 sid (userName userSession) language now)]))"

text \<open>\<^verbatim>\<open>socket.on('disconnect', () => { ... })\<close>\<close>

definition disconnect2 :: "int \<Rightarrow> string \<Rightarrow> server2 \<Rightarrow> server2 \<times> event2 action list" where
  "disconnect2 now sid s =
     (case Map_get (userSessions2 s) sid of
        None \<Rightarrow> (s, [])
      | Some userSession \<Rightarrow>
          (let s1 = updateRoomUsers (roomId userSession) sid ''leave'' s
           in (s1\<lparr>userSessions2 := Map_delete (userSessions2 s1) sid\<rparr>,
               [Emit (Others (roomId userSession) sid)
                  (UserLeft2 sid (userName userSession) now)])))"

section \<open>The translation cache of the browser (\<^verbatim>\<open>PerformanceOptimizer\<close>)\<close>

text \<open>
  \<^verbatim>\<open>this.translationCache = new Map(); this.maxCacheSize = 100;\<close>
  The map holds objects of two shapes. An entry written by \<^verbatim>\<open>cacheTranslation\<close> is
  \<^verbatim>\<open>{ originalText, translatedText, sourceLang, targetLang, timestamp, hitCount }\<close>. An entry
  written by a timer of \<^verbatim>\<open>preloadTranslations\<close> is \<^verbatim>\<open>{ text, translation, timestamp }\<close>: it
  has no \<^verbatim>\<open>originalText\<close>, no \<^verbatim>\<open>translatedText\<close> and no \<^verbatim>\<open>hitCount\<close>.
  \<^verbatim>\<open>getCachedTranslation\<close> adds \<^verbatim>\<open>lastAccessed\<close> to either, and its \<^verbatim>\<open>hitCount++\<close> turns the
  missing count of a placeholder into \<^verbatim>\<open>NaN\<close>. Times (\<^verbatim>\<open>Date.now()\<close>) are integers, in
  milliseconds.
\<close>

record cache_entry =
  e_originalText :: string
  e_translatedText :: string
  e_sourceLang :: string
  e_targetLang :: string
  e_timestamp :: int
  e_hitCount :: nat
  e_lastAccessed :: "int option"

record placeholder =
  p_text :: string
  p_translation :: string
  p_timestamp :: int
  p_hitCountNaN :: bool
  p_lastAccessed :: "int option"

datatype cached = Stored cache_entry | Placeholder placeholder

text \<open>
  The fields that the code reads from a cached object; a field that the object does not
  have reads as \<^verbatim>\<open>undefined\<close>.
\<close>

fun cached_originalText :: "cached \<Rightarrow> string option" where
  "cached_originalText (Stored e) = Some (e_originalText e)"
| "cached_originalText (Placeholder p) = None"

fun cached_translatedText :: "cached \<Rightarrow> string option" where
  "cached_translatedText (Stored e) = Some (e_translatedText e)"
| "cached_translatedText (Placeholder p) = None"

fun cached_timestamp :: "cached \<Rightarrow> int" where
  "cached_timestamp (Stored e) = e_timestamp e"
| "cached_timestamp (Placeholder p) = p_timestamp p"

text \<open>\<^verbatim>\<open>cached.hitCount++; cached.lastAccessed = Date.now();\<close>\<close>

fun touch :: "int \<Rightarrow> cached \<Rightarrow> cached" where
  "touch now (Stored e) = Stored (e\<lparr>e_hitCount := e_hitCount e + 1, e_lastAccessed := Some now\<rparr>)"
| "touch now (Placeholder p) = Placeholder (p\<lparr>p_hitCountNaN := True, p_lastAccessed := Some now\<rparr>)"

text \<open>
  Besides the cache, its capacity and the recorded latencies, the state holds the timers
  that \<^verbatim>\<open>preloadTranslations\<close> has set and that have not fired yet, each with the phrase
  and the language pair that its callback closes over.
\<close>

record optimizer =
  translationCache :: "(string, cached) js_map"
  maxCacheSize :: nat
  translationLatency :: "(int \<times> int \<times> nat) list"
  pendingPreloads :: "(string \<times> string \<times> string) list"

text \<open>The key \<^verbatim>\<open>`${originalText}_${sourceLang}_${targetLang}`\<close>.\<close>

definition cacheKey :: "string \<Rightarrow> string \<Rightarrow> string \<Rightarrow> string" where
  "cacheKey text sourceLang targetLang = text @ ''_'' @ sourceLang @ ''_'' @ targetLang"

text \<open>
  The constructor sets \<^verbatim>\<open>maxCacheSize = 100\<close> and calls \<^verbatim>\<open>init\<close>. Of the four steps of
  \<^verbatim>\<open>init\<close>, two touch the cache. \<^verbatim>\<open>optimizeForDevice\<close> applies \<^verbatim>\<open>cacheSize: 50\<close> on a
  mobile device and \<^verbatim>\<open>cacheSize: 100\<close> otherwise (\<^verbatim>\<open>applyOptimizations\<close>:
  \<^verbatim>\<open>this.maxCacheSize = config.cacheSize\<close>). \<^verbatim>\<open>preloadCriticalResources\<close> calls
  \<^verbatim>\<open>preloadTranslations\<close> on four language pairs and eight phrases:
  \<^verbatim>\<open>
  for (const pair of languagePairs) {
      for (const phrase of phrases) {
          const cacheKey = `${phrase}_${pair.from}_${pair.to}`;
          if (!this.translationCache.has(cacheKey)) {
              // Simulate translation preloading (would use actual API in production)
              setTimeout(() => {
                  this.translationCache.set(cacheKey, {
                      text: phrase,
                      translation: `[${pair.to}] ${phrase}`, // Placeholder
                      timestamp: Date.now()
                  });
              }, Math.random() * 1000);
          }
      }
  }
  \<close>
  The loop only sets timers. Each timer fires later, at a time of its own, and writes
  its placeholder into the map without looking at the size of the map.
\<close>

definition applyOptimizations :: "nat \<Rightarrow> optimizer \<Rightarrow> optimizer" where
  "applyOptimizations cacheSize st = st\<lparr>maxCacheSize := cacheSize\<rparr>"

definition optimizeForDevice :: "bool \<Rightarrow> optimizer \<Rightarrow> optimizer" where
  "optimizeForDevice isMobile st = applyOptimizations (if isMobile then 50 else 100) st"

definition commonPairs :: "(string \<times> string) list" where
  "commonPairs = [(''en'', ''es''), (''en'', ''fr''), (''es'', ''en''), (''fr'', ''en'')]"

definition commonPhrases :: "string list" where
  "commonPhrases =
     [''Hello'', ''Thank you'', ''Please'', ''Excuse me'', ''How are you?'',
      ''Where is...?'', ''I need help'', ''Do you speak English?'']"

definition preloadTranslations :: "(string \<times> string) list \<Rightarrow> string list \<Rightarrow> optimizer \<Rightarrow> optimizer" where
  "preloadTranslations languagePairs phrases st =
     st\<lparr>pendingPreloads := pendingPreloads st @
          concat (map (\<lambda>(from, to).
            concat (map (\<lambda>phrase.
              if \<not> Map_has (translationCache st) (cacheKey phrase from to)
              then [(phrase, from, to)] else []) phrases)) languagePairs)\<rparr>"

definition preloadCriticalResources :: "optimizer \<Rightarrow> optimizer" where
  "preloadCriticalResources st = preloadTranslations commonPairs commonPhrases st"

definition new_optimizer :: "bool \<Rightarrow> optimizer" where
  "new_optimizer isMobile =
     preloadCriticalResources
       (optimizeForDevice isMobile
          \<lparr>translationCache = [], maxCacheSize = 100, translationLatency = [],
           pendingPreloads = []\<rparr>)"

text \<open>The callback of the timer set for \<open>phrase\<close> and the pair \<open>(from, to)\<close>.\<close>

definition preloadTimer :: "int \<Rightarrow> string \<Rightarrow> string \<Rightarrow> string \<Rightarrow> optimizer \<Rightarrow> optimizer" where
  "preloadTimer now phrase from to st =
     st\<lparr>translationCache := Map_set (translationCache st) (cacheKey phrase from to)
          (Placeholder \<lparr>p_text = phrase, p_translation = ''['' @ to @ ''] '' @ phrase,
                        p_timestamp = now, p_hitCountNaN = False, p_lastAccessed = None\<rparr>)\<rparr>"

text \<open>
  \<^verbatim>\<open>
  cacheTranslation(originalText, translatedText, sourceLang, targetLang) {
      const key = `${originalText}_${sourceLang}_${targetLang}`;
      if (this.translationCache.size >= this.maxCacheSize) {
          // Remove oldest entry (LRU)
          const oldestKey = this.translationCache.keys().next().value;
          this.translationCache.delete(oldestKey);
      }
      this.translationCache.set(key, { originalText, translatedText, sourceLang, targetLang,
          timestamp: Date.now(), hitCount: 0 });
  }
  \<close>
\<close>

definition cacheTranslation ::
  "int \<Rightarrow> string \<Rightarrow> string \<Rightarrow> string \<Rightarrow> string \<Rightarrow> optimizer \<Rightarrow> optimizer" where
  "cacheTranslation now original translated sourceLang targetLang st =
     (let key = cacheKey original sourceLang targetLang;
          cache1 = (if Map_size (translationCache st) \<ge> maxCacheSize st then
                      (case Map_first_key (translationCache st) of
                         Some oldestKey \<Rightarrow> Map_delete (translationCache st) oldestKey
                       | None \<Rightarrow> translationCache st)
                    else translationCache st)
      in st\<lparr>translationCache := Map_set cache1 key
              (Stored \<lparr>e_originalText = original, e_translatedText = translated,
                       e_sourceLang = sourceLang, e_targetLang = targetLang,
                       e_timestamp = now, e_hitCount = 0, e_lastAccessed = None\<rparr>)\<rparr>)"

text \<open>
  \<^verbatim>\<open>
  getCachedTranslation(text, sourceLang, targetLang) {
      const key = `${text}_${sourceLang}_${targetLang}`;
      const cached = this.translationCache.get(key);
      if (cached) {
          cached.hitCount++;
          cached.lastAccessed = Date.now();
          return cached;
      }
      return null;
  }
  \<close>
  The object is changed where it stands in the map: a lookup does not move the entry.
\<close>

definition getCachedTranslation ::
  "int \<Rightarrow> string \<Rightarrow> string \<Rightarrow> string \<Rightarrow> optimizer \<Rightarrow> cached option \<times> optimizer" where
  "getCachedTranslation now text sourceLang targetLang st =
     (let key = cacheKey text sourceLang targetLang
      in case Map_get (translationCache st) key of
           Some cached \<Rightarrow>
             (let cached' = touch now cached
              in (Some cached', st\<lparr>translationCache := Map_set (translationCache st) key cached'\<rparr>))
         | None \<Rightarrow> (None, st))"

text \<open>
  \<^verbatim>\<open>cleanupCache\<close>, the part on the translation cache:
  \<^verbatim>\<open>
  const now = Date.now();
  const maxAge = 30 * 60 * 1000; // 30 minutes
  for (const [key, value] of this.translationCache.entries()) {
      if (now - value.timestamp > maxAge) {
          this.translationCache.delete(key);
      }
  }
  \<close>
\<close>

definition maxAge :: int where
  "maxAge = 30 * 60 * 1000"

definition cleanupCache :: "int \<Rightarrow> optimizer \<Rightarrow> optimizer" where
  "cleanupCache now st =
     st\<lparr>translationCache :=
          filter (\<lambda>(key, v). \<not> (now - cached_timestamp v > maxAge)) (translationCache st)\<rparr>"

text \<open>
  \<^verbatim>\<open>translateSingle(request)\<close> with \<^verbatim>\<open>request = { text, sourceLang, targetLang }\<close>. The
  request to \<^verbatim>\<open>/api/translate\<close> is answered by the outside: \<^verbatim>\<open>fetch\<close> or
  \<^verbatim>\<open>response.json()\<close> throws with a message, or the answer is an object of which
  \<^verbatim>\<open>success\<close> and \<^verbatim>\<open>translatedText\<close> are read. \<open>t0\<close> is the time before the request
  (the lookup and \<^verbatim>\<open>startTime\<close>), \<open>t1\<close> the time after the answer. The result comes with
  the new state and the list of the requests that were sent. On a hit the result is
  \<^verbatim>\<open>{ originalText: cached.originalText, translatedText: cached.translatedText,
  fromCache: true }\<close>, whose two texts are \<^verbatim>\<open>undefined\<close> when the entry is a placeholder.
\<close>

record request =
  req_text :: string
  req_sourceLang :: string
  req_targetLang :: string

record api_result =
  res_success :: bool
  res_translatedText :: string

datatype fetch_outcome = FetchThrows string | Json api_result

datatype single_result = FromCache "string option" "string option" | FromServer api_result

definition translateSingle ::
  "int \<Rightarrow> int \<Rightarrow> (request \<Rightarrow> fetch_outcome) \<Rightarrow> request \<Rightarrow> optimizer
     \<Rightarrow> (string + single_result) \<times> optimizer \<times> request list" where
  "translateSingle t0 t1 fetch request st =
     (let (cached, st1) =
            getCachedTranslation t0 (req_text request) (req_sourceLang request)
              (req_targetLang request) st
      in case cached of
           Some c \<Rightarrow> (Inr (FromCache (cached_originalText c) (cached_translatedText c)), st1, [])
         | None \<Rightarrow>
             (case fetch request of
                FetchThrows msg \<Rightarrow> (Inl (''Translation failed: '' @ msg), st1, [request])
              | Json result \<Rightarrow>
                  (let st2 = st1\<lparr>translationLatency :=
                               translationLatency st1 @ [(t1, t1 - t0, length (req_text request))]\<rparr>;
                       st3 = (if res_success result then
                                cacheTranslation t1 (req_text request) (res_translatedText result)
                                  (req_sourceLang request) (req_targetLang request) st2
                              else st2)
                   in (Inr (FromServer result), st3, [request]))))"

text \<open>
  What happens to the cache, to run sequences of it: a store, a lookup, a sweep, and the
  firing of the timer set for a phrase and a language pair. A timer fires once, so the
  firing of a timer that is not pending is no step.
\<close>

datatype cache_op =
    Store int string string string string
  | Lookup int string string string
  | Sweep int
  | PreloadTimer int string string string

fun run_op :: "cache_op \<Rightarrow> optimizer \<Rightarrow> optimizer" where
  "run_op (Store now original translated sourceLang targetLang) st =
     cacheTranslation now original translated sourceLang targetLang st"
| "run_op (Lookup now text sourceLang targetLang) st =
     snd (getCachedTranslation now text sourceLang targetLang st)"
| "run_op (Sweep now) st = cleanupCache now st"
| "run_op (PreloadTimer now phrase from to) st =
     (if (phrase, from, to) \<in> set (pendingPreloads st)
      then preloadTimer now phrase from to
             (st\<lparr>pendingPreloads := remove1 (phrase, from, to) (pendingPreloads st)\<rparr>)
      else st)"

fun run_ops :: "cache_op list \<Rightarrow> optimizer \<Rightarrow> optimizer" where
  "run_ops [] st = st"
| "run_ops (op # ops) st = run_ops ops (run_op op st)"

fun is_timer :: "cache_op \<Rightarrow> bool" where
  "is_timer (PreloadTimer now phrase from to) = True"
| "is_timer op = False"

section \<open>Concrete scenarios\<close>

text \<open>
  Networks: one whose three services all answer with an empty translation, one whose
  first service is down while the others answer, one whose services are all down, and
  one whose first service answers.
\<close>

definition blank_net :: provider where
  "blank_net sv t a b = Resolves (Some [])"

definition flaky_net :: provider where
  "flaky_net sv t a b =
     (case sv of
        LibreTranslate \<Rightarrow> Rejects
      | MyMemory \<Rightarrow> Resolves (Some ''Hola'')
      | Lingva \<Rightarrow> Resolves (Some ''Buenas''))"

definition down_net :: provider where
  "down_net sv t a b = Rejects"

definition hola_net :: provider where
  "hola_net sv t a b = Resolves (Some ''Hola'')"

text \<open>
  Caches: an optimizer configured with \<^verbatim>\<open>cacheSize: 2\<close>, and the same after two stores,
  when it is full.
\<close>

definition tiny_optimizer :: optimizer where
  "tiny_optimizer = applyOptimizations 2 (new_optimizer False)"

definition full_optimizer :: optimizer where
  "full_optimizer =
     cacheTranslation 2 ''bye'' ''adios'' ''en'' ''es''
       (cacheTranslation 1 ''hi'' ''hola'' ''en'' ''es'' tiny_optimizer)"

text \<open>
  The optimizer of a mobile device, whose capacity is 50: nineteen stores of distinct
  keys that come before the preload timers fire, and then the firing of every timer that
  the constructor has set.
\<close>

definition early_stores :: "cache_op list" where
  "early_stores = map (\<lambda>c. Store 0 [c] [c] ''en'' ''de'') ''abcdefghijklmnopqrs''"

definition all_timers :: "cache_op list" where
  "all_timers =
     map (\<lambda>(phrase, from, to). PreloadTimer 1 phrase from to) (pendingPreloads (new_optimizer True))"

text \<open>
  Worlds: every service of every call answers \<^verbatim>\<open>Hola\<close>; every service of every call is
  down. The clock stands at 7.
\<close>

definition hola_world :: world where
  "hola_world = \<lparr>net = (\<lambda>u. hola_net), clock = (\<lambda>u. 7)\<rparr>"

definition down_world :: world where
  "down_world = \<lparr>net = (\<lambda>u. down_net), clock = (\<lambda>u. 7)\<rparr>"

text \<open>
  First server file: Alice (en) alone in room R1; then Bob (es) with her; then Carol (en)
  as well.
\<close>

definition alice_alone :: server where
  "alice_alone = fst (join_room 1 ''alice'' ''R1'' ''Alice'' ''en'' init_server)"

definition alice_bob :: server where
  "alice_bob = fst (join_room 2 ''bob'' ''R1'' ''Bob'' ''es'' alice_alone)"

definition alice_bob_carol :: server where
  "alice_bob_carol = fst (join_room 3 ''carol'' ''R1'' ''Carol'' ''en'' alice_bob)"

text \<open>Second server file: Alice (en) alone in R1; then Bob (es) with her; then Carol (en).\<close>

definition alice_alone2 :: server2 where
  "alice_alone2 =
     fst (join_room2 1 ''User7'' ''alice'' ''R1'' (Some ''Alice'') (Some ''en'') init_server2)"

definition alice_bob2 :: server2 where
  "alice_bob2 = fst (join_room2 2 ''User7'' ''bob'' ''R1'' (Some ''Bob'') (Some ''es'') alice_alone2)"

definition alice_bob_carol2 :: server2 where
  "alice_bob_carol2 =
     fst (join_room2 3 ''User7'' ''carol'' ''R1'' (Some ''Carol'') (Some ''en'') alice_bob2)"

text \<open>
  The registry holds no room without members: the invariant that the handlers of the
  connections keep.
\<close>

definition no_empty_room :: "server \<Rightarrow> bool" where
  "no_empty_room s = list_all (\<lambda>(rid, room). users room \<noteq> []) (rooms s)"

text \<open>
  Every room that has a member is in the registry: the room that a session names is
  registered and holds the session's connection.
\<close>

definition members_registered :: "server \<Rightarrow> bool" where
  "members_registered s =
     list_all (\<lambda>(sid, session).
        case Map_get (rooms s) (roomId session) of
          None \<Rightarrow> False
        | Some room \<Rightarrow> Map_has (users room) sid) (userSessions s)"

text \<open>
  The browser's request for \<^verbatim>\<open>Hello\<close> from English to Spanish, and a server that answers
  every request with success and \<^verbatim>\<open>Hola\<close>.
\<close>

definition hello_request :: request where
  "hello_request = \<lparr>req_text = ''Hello'', req_sourceLang = ''en'', req_targetLang = ''es''\<rparr>"

definition hola_fetch :: "request \<Rightarrow> fetch_outcome" where
  "hola_fetch r = Json \<lparr>res_success = True, res_translatedText = ''Hola''\<rparr>"

text \<open>
  The tables of a server are JavaScript maps, and so is the member table of every room:
  their keys are unique.
\<close>

definition wf_server :: "server \<Rightarrow> bool" where
  "wf_server s =
     (is_Map (rooms s) \<and> is_Map (userSessions s) \<and>
      list_all (\<lambda>(rid, room). is_Map (users room)) (rooms s))"

definition wf_server2 :: "server2 \<Rightarrow> bool" where
  "wf_server2 s =
     (is_Map (activeRooms s) \<and> is_Map (userSessions2 s) \<and>
      list_all (\<lambda>(rid, room). is_Map room) (activeRooms s))"

section \<open>Properties of the provider chain\<close>

lemma try_services_first:
  "\<exists>called. fst (try_services call (sv # rest)) = sv # called"
  by (simp add: case_prod_beta Let_def split: outcome.splits option.splits)

lemma try_services_all_fail:
  "(\<forall>sv \<in> set svs. \<not> succeeded (call sv)) \<Longrightarrow>
     try_services call svs = (svs, Inl ''All translation services failed'')"
  by (induction svs) (auto split: outcome.splits option.splits)

lemma try_services_first_success:
  "(\<forall>sv \<in> set pre. \<not> succeeded (call sv)) \<Longrightarrow> call sv = Resolves (Some r) \<Longrightarrow> r \<noteq> [] \<Longrightarrow>
     try_services call (pre @ sv # post) = (pre @ [sv], Inr r)"
  by (induction pre) (auto split: outcome.splits option.splits)

lemma try_services_cases:
  "(\<exists>pre sv post r. svs = pre @ sv # post \<and> (\<forall>x \<in> set pre. \<not> succeeded (call x)) \<and>
        call sv = Resolves (Some r) \<and> r \<noteq> [])
   \<or> (\<forall>sv \<in> set svs. \<not> succeeded (call sv))"
proof (induction svs)
  case Nil
  then show ?case by simp
next
  case (Cons a svs)
  show ?case
  proof (cases "succeeded (call a)")
    case True
    then obtain r where "call a = Resolves (Some r)" "r \<noteq> []"
      by (cases "call a") (auto elim: truthy.elims)
    then have "a # svs = [] @ a # svs \<and> (\<forall>x \<in> set []. \<not> succeeded (call x)) \<and>
        call a = Resolves (Some r) \<and> r \<noteq> []"
      by simp
    then show ?thesis by blast
  next
    case False
    from Cons.IH show ?thesis
    proof
      assume "\<exists>pre sv post r. svs = pre @ sv # post \<and> (\<forall>x \<in> set pre. \<not> succeeded (call x)) \<and>
        call sv = Resolves (Some r) \<and> r \<noteq> []"
      then obtain pre sv post r where h: "svs = pre @ sv # post"
        "\<forall>x \<in> set pre. \<not> succeeded (call x)" "call sv = Resolves (Some r)" "r \<noteq> []"
        by blast
      from h False have "a # svs = (a # pre) @ sv # post \<and>
        (\<forall>x \<in> set (a # pre). \<not> succeeded (call x)) \<and> call sv = Resolves (Some r) \<and> r \<noteq> []"
        by simp
      then show ?thesis by blast
    next
      assume "\<forall>sv \<in> set svs. \<not> succeeded (call sv)"
      with False show ?thesis by simp
    qed
  qed
qed

lemma try_services_result:
  assumes "try_services call svs = (called, res)"
  shows "(\<forall>r. res = Inr r \<longrightarrow>
            (\<exists>i < length svs. called = take (Suc i) svs \<and> call (svs ! i) = Resolves (Some r) \<and>
               r \<noteq> [] \<and> (\<forall>j < i. \<not> succeeded (call (svs ! j)))))
       \<and> (\<forall>e. res = Inl e \<longrightarrow>
            e = ''All translation services failed'' \<and> called = svs \<and>
            (\<forall>sv \<in> set svs. \<not> succeeded (call sv)))"
proof -
  from try_services_cases [of svs call] show ?thesis
  proof
    assume "\<exists>pre sv post r. svs = pre @ sv # post \<and> (\<forall>x \<in> set pre. \<not> succeeded (call x)) \<and>
        call sv = Resolves (Some r) \<and> r \<noteq> []"
    then obtain pre sv post r where h: "svs = pre @ sv # post"
      "\<forall>x \<in> set pre. \<not> succeeded (call x)" "call sv = Resolves (Some r)" "r \<noteq> []"
      by blast
    from try_services_first_success [OF h(2) h(3) h(4), of post] h(1) assms
    have c: "called = pre @ [sv]" and r: "res = Inr r" by simp_all
    have i: "length pre < length svs" using h(1) by simp
    have t: "take (Suc (length pre)) svs = pre @ [sv]" using h(1) by simp
    have n: "svs ! length pre = sv" using h(1) by simp
    have b: "\<forall>j < length pre. \<not> succeeded (call (svs ! j))"
      using h(1) h(2) by (simp add: nth_append)
    from c r i t n b h(3) h(4) show ?thesis by auto
  next
    assume a: "\<forall>sv \<in> set svs. \<not> succeeded (call sv)"
    from try_services_all_fail [OF a] assms show ?thesis using a by simp
  qed
qed

text \<open>
  Claim C5, as stated, on an empty utterance, at the network whose three services each
  answer with the empty translation: no call failed or timed out, every service returned
  its translation, and yet the chain throws, after calling all three services.
\<close>

theorem translateWithFreeServices_fails_on_empty_answers:
  "translateWithFreeServices blank_net [] ''en'' ''es'' =
     ([LibreTranslate, MyMemory, Lingva], Inl ''All translation services failed'')
   \<and> \<not> failed (blank_net LibreTranslate [] ''en'' ''es'')
   \<and> \<not> failed (blank_net MyMemory [] ''en'' ''es'')
   \<and> \<not> failed (blank_net Lingva [] ''en'' ''es'')"
  by (simp add: translateWithFreeServices_def services_def blank_net_def)

text \<open>
  Claim C5, amended. \<^verbatim>\<open>translateWithFreeServices\<close> calls the services in the fixed order
  LibreTranslate, MyMemory, Lingva and stops at the first call that resolves to a truthy
  (non-empty) translation, which it returns: the services called are the chain up to
  and including that one, and every earlier call rejected or resolved to an empty or
  missing translation. It throws only when every one of the three calls rejected or
  resolved to an empty or missing translation, after calling all three, and what it
  throws is the fixed message, with nothing of a result in it.
\<close>

theorem translateWithFreeServices_first_truthy:
  assumes "translateWithFreeServices nt text src tgt = (called, res)"
  shows "(\<forall>r. res = Inr r \<longrightarrow>
            (\<exists>i < length services. called = take (Suc i) services \<and>
               nt (services ! i) text src tgt = Resolves (Some r) \<and> r \<noteq> [] \<and>
               (\<forall>j < i. \<not> succeeded (nt (services ! j) text src tgt))))
       \<and> (\<forall>e. res = Inl e \<longrightarrow>
            e = ''All translation services failed'' \<and> called = services \<and>
            (\<forall>sv \<in> set services. \<not> succeeded (nt sv text src tgt)))"
  using try_services_result [of "\<lambda>sv. nt sv text src tgt" services called res] assms
  unfolding translateWithFreeServices_def by simp

text \<open>
  The amended claim C5 at a network whose first service is down and whose second
  answers: the chain returns the second service's answer after calling the first two.
\<close>

theorem translateWithFreeServices_first_truthy_witness:
  "translateWithFreeServices flaky_net ''Hello'' ''en'' ''es'' = ([LibreTranslate, MyMemory], Inr ''Hola'')
   \<and> (\<exists>i < length services. [LibreTranslate, MyMemory] = take (Suc i) services \<and>
         flaky_net (services ! i) ''Hello'' ''en'' ''es'' = Resolves (Some ''Hola'') \<and>
         (\<forall>j < i. \<not> succeeded (flaky_net (services ! j) ''Hello'' ''en'' ''es'')))"
proof -
  have e: "translateWithFreeServices flaky_net ''Hello'' ''en'' ''es'' =
             ([LibreTranslate, MyMemory], Inr ''Hola'')"
    by (simp add: translateWithFreeServices_def services_def flaky_net_def)
  from translateWithFreeServices_first_truthy [OF e] e show ?thesis by simp
qed

section \<open>Properties of the translation cache\<close>

lemma length_update_le: "length (AList.update k v al) \<le> Suc (length al)"
  by (induction al) auto

lemma length_update_present: "k \<in> fst ` set al \<Longrightarrow> length (AList.update k v al) = length al"
  by (induction al) auto

lemma update_absent: "k \<notin> fst ` set al \<Longrightarrow> AList.update k v al = al @ [(k, v)]"
  by (induction al) auto

lemma length_delete_present: "k \<in> fst ` set al \<Longrightarrow> length (AList.delete k al) < length al"
proof (induction al)
  case Nil
  then show ?case by simp
next
  case (Cons p al)
  show ?case
  proof (cases "fst p = k")
    case True
    have "length (AList.delete k al) \<le> length al" by (rule AList.length_delete_le)
    with True show ?thesis by (simp add: less_Suc_eq_le)
  next
    case False
    with Cons.prems have "k \<in> fst ` set al" by auto
    from Cons.IH [OF this] False show ?thesis by simp
  qed
qed

lemma delete_first: "distinct (map fst ((k, v) # al)) \<Longrightarrow> AList.delete k ((k, v) # al) = al"
  by (simp add: image_iff)

lemma cacheTranslation_max [simp]:
  "maxCacheSize (cacheTranslation now t tr a b st) = maxCacheSize st"
  by (simp add: cacheTranslation_def Let_def)

lemma getCachedTranslation_max [simp]:
  "maxCacheSize (snd (getCachedTranslation now t a b st)) = maxCacheSize st"
  by (simp add: getCachedTranslation_def Let_def split: option.splits)

lemma cleanupCache_max [simp]: "maxCacheSize (cleanupCache now st) = maxCacheSize st"
  by (simp add: cleanupCache_def)

lemma cacheTranslation_size:
  assumes "0 < maxCacheSize st" and "Map_size (translationCache st) \<le> maxCacheSize st"
  shows "Map_size (translationCache (cacheTranslation now t tr a b st)) \<le> maxCacheSize st"
proof (cases "Map_size (translationCache st) \<ge> maxCacheSize st")
  case True
  with assms have ne: "translationCache st \<noteq> []" by (auto simp: Map_size_def)
  then obtain k v rest where c: "translationCache st = (k, v) # rest"
    by (cases "translationCache st") auto
  have "length (AList.delete k (translationCache st)) < length (translationCache st)"
    by (rule length_delete_present) (simp add: c)
  with assms(2) have "length (AList.delete k (translationCache st)) < maxCacheSize st"
    by (simp add: Map_size_def)
  moreover have "length (AList.update key e (AList.delete k (translationCache st)))
      \<le> Suc (length (AList.delete k (translationCache st)))" for key e
    by (rule length_update_le)
  ultimately show ?thesis using True c
    by (simp add: cacheTranslation_def Let_def Map_size_def Map_first_key_def Map_set_def
        Map_delete_def del: AList.delete_simps) (metis Suc_leI le_trans)
next
  case False
  then have "length (translationCache st) < maxCacheSize st" by (simp add: Map_size_def)
  moreover have "length (AList.update key e (translationCache st))
      \<le> Suc (length (translationCache st))" for key e
    by (rule length_update_le)
  ultimately show ?thesis using False
    by (simp add: cacheTranslation_def Let_def Map_size_def Map_set_def) (metis Suc_leI le_trans)
qed

lemma getCachedTranslation_size:
  "Map_size (translationCache (snd (getCachedTranslation now t a b st))) = Map_size (translationCache st)"
proof (cases "map_of (translationCache st) (cacheKey t a b)")
  case None
  then show ?thesis by (simp add: getCachedTranslation_def Let_def Map_get_def)
next
  case (Some c)
  then have "cacheKey t a b \<in> fst ` set (translationCache st)"
    by (metis domI dom_map_of_conv_image_fst)
  from length_update_present [OF this] Some show ?thesis
    by (simp add: getCachedTranslation_def Let_def Map_get_def Map_size_def Map_set_def)
qed

lemma cleanupCache_size:
  "Map_size (translationCache (cleanupCache now st)) \<le> Map_size (translationCache st)"
  by (simp add: cleanupCache_def Map_size_def)

lemma preloadTimer_max [simp]: "maxCacheSize (run_op (PreloadTimer now phrase from to) st) = maxCacheSize st"
  by (simp add: preloadTimer_def)

lemma run_op_size:
  assumes "0 < maxCacheSize st" and "Map_size (translationCache st) \<le> maxCacheSize st"
    and "\<not> is_timer op"
  shows "Map_size (translationCache (run_op op st)) \<le> maxCacheSize st \<and>
         maxCacheSize (run_op op st) = maxCacheSize st"
proof (cases op)
  case (Store now t tr a b)
  with assms show ?thesis by (simp add: cacheTranslation_size)
next
  case (Lookup now t a b)
  with assms show ?thesis by (simp add: getCachedTranslation_size)
next
  case (Sweep now)
  with assms cleanupCache_size [of now st] show ?thesis by simp
next
  case (PreloadTimer now phrase "from" to)
  with assms(3) show ?thesis by simp
qed

lemma run_ops_size:
  "0 < maxCacheSize st \<Longrightarrow> Map_size (translationCache st) \<le> maxCacheSize st \<Longrightarrow>
   \<forall>op \<in> set ops. \<not> is_timer op \<Longrightarrow>
     Map_size (translationCache (run_ops ops st)) \<le> maxCacheSize st \<and>
     maxCacheSize (run_ops ops st) = maxCacheSize st"
proof (induction ops arbitrary: st)
  case Nil
  then show ?case by simp
next
  case (Cons op ops)
  from Cons.prems(3) have n: "\<not> is_timer op" and r: "\<forall>op \<in> set ops. \<not> is_timer op" by simp_all
  from run_op_size [OF Cons.prems(1,2) n]
  have a: "Map_size (translationCache (run_op op st)) \<le> maxCacheSize (run_op op st)"
    and b: "maxCacheSize (run_op op st) = maxCacheSize st" by simp_all
  from Cons.prems(1) b have c: "0 < maxCacheSize (run_op op st)" by simp
  from Cons.IH [OF c a r] b show ?case by simp
qed

lemma getCachedTranslation_keys:
  "Map_keys (translationCache (snd (getCachedTranslation now t a b st))) =
     Map_keys (translationCache st)"
proof (cases "map_of (translationCache st) (cacheKey t a b)")
  case None
  then show ?thesis by (simp add: getCachedTranslation_def Let_def Map_get_def)
next
  case (Some c)
  then have "cacheKey t a b \<in> fst ` set (translationCache st)"
    by (metis domI dom_map_of_conv_image_fst)
  then have "map fst (AList.update (cacheKey t a b) v (translationCache st)) =
      map fst (translationCache st)" for v
    by (simp add: AList.update_keys)
  with Some show ?thesis
    by (simp add: getCachedTranslation_def Let_def Map_get_def Map_keys_def Map_set_def)
qed

lemma cacheTranslation_evicts:
  assumes "Map_size (translationCache st) \<ge> maxCacheSize st"
    and "translationCache st = (k0, e0) # rest"
    and "is_Map (translationCache st)"
  shows "translationCache (cacheTranslation now t tr a b st) =
           Map_set rest (cacheKey t a b)
             (Stored \<lparr>e_originalText = t, e_translatedText = tr, e_sourceLang = a, e_targetLang = b,
              e_timestamp = now, e_hitCount = 0, e_lastAccessed = None\<rparr>)"
proof -
  from assms(2,3) have "AList.delete k0 (translationCache st) = rest"
    using delete_first [of k0 e0 rest] by (simp add: is_Map_def)
  with assms(1,2) show ?thesis
    by (simp add: cacheTranslation_def Let_def Map_first_key_def Map_delete_def
        del: AList.delete_simps)
qed


lemma new_optimizer_simps [simp]:
  "translationCache (new_optimizer m) = []"
  "maxCacheSize (new_optimizer m) = (if m then 50 else 100)"
  by (simp_all add: new_optimizer_def optimizeForDevice_def applyOptimizations_def
      preloadCriticalResources_def preloadTranslations_def)

text \<open>
  Claim C7 on the code. The stores keep the bound: no sequence of stores, lookups and
  sweeps takes a cache that is within its capacity beyond it (\<open>run_ops_size\<close>), and a
  lookup leaves the order of the entries as it is (\<open>getCachedTranslation_keys\<close>), so
  that the entry removed at capacity is the one inserted first. The timers of the
  preload do not: on a mobile device the constructor sets 32 timers; after nineteen
  stores of distinct keys and the firing of the timers the cache holds 51 entries for a
  capacity of 50, and a further store leaves it at 51.
\<close>

theorem preload_timers_overfill_cache:
  "maxCacheSize (new_optimizer True) = 50
   \<and> length (pendingPreloads (new_optimizer True)) = 32
   \<and> Map_size (translationCache (run_ops early_stores (new_optimizer True))) = 19
   \<and> Map_size (translationCache (run_ops (early_stores @ all_timers) (new_optimizer True))) = 51
   \<and> maxCacheSize (run_ops (early_stores @ all_timers) (new_optimizer True)) = 50
   \<and> Map_size (translationCache
        (run_ops (early_stores @ all_timers @ [Store 2 ''t'' ''t'' ''en'' ''de''])
           (new_optimizer True))) = 51"
proof (intro conjI)
  show "maxCacheSize (run_ops (early_stores @ all_timers) (new_optimizer True)) = 50"
    by code_simp
  show "maxCacheSize (new_optimizer True) = 50" by simp
  show "length (pendingPreloads (new_optimizer True)) = 32" by code_simp
  show "Map_size (translationCache (run_ops early_stores (new_optimizer True))) = 19"
    by code_simp
  show "Map_size (translationCache (run_ops (early_stores @ all_timers) (new_optimizer True))) = 51"
    by code_simp
  show "Map_size (translationCache
        (run_ops (early_stores @ all_timers @ [Store 2 ''t'' ''t'' ''en'' ''de''])
           (new_optimizer True))) = 51"
    by code_simp
qed

lemma tiny_simps:
  "translationCache tiny_optimizer = []" "maxCacheSize tiny_optimizer = 2"
  by (simp_all add: tiny_optimizer_def applyOptimizations_def)

lemma full_optimizer_cache:
  "translationCache full_optimizer =
     [(''hi_en_es'', (Stored \<lparr>e_originalText = ''hi'', e_translatedText = ''hola'', e_sourceLang = ''en'',
         e_targetLang = ''es'', e_timestamp = 1, e_hitCount = 0, e_lastAccessed = None\<rparr>)),
      (''bye_en_es'', (Stored \<lparr>e_originalText = ''bye'', e_translatedText = ''adios'', e_sourceLang = ''en'',
         e_targetLang = ''es'', e_timestamp = 2, e_hitCount = 0, e_lastAccessed = None\<rparr>))]"
  "maxCacheSize full_optimizer = 2"
  by (simp_all add: full_optimizer_def cacheTranslation_def Let_def tiny_simps Map_size_def
      Map_set_def cacheKey_def)

text \<open>
  Claim C8, as stated, on a fresh optimizer: storing a translation for the empty text is
  not a no-op, the cache then holds an entry under the key \<^verbatim>\<open>_en_es\<close>.
\<close>

theorem cacheTranslation_inserts_empty_text:
  "translationCache (cacheTranslation 1 [] ''hola'' ''en'' ''es'' (new_optimizer False)) =
     [(''_en_es'', (Stored \<lparr>e_originalText = [], e_translatedText = ''hola'', e_sourceLang = ''en'',
         e_targetLang = ''es'', e_timestamp = 1, e_hitCount = 0, e_lastAccessed = None\<rparr>))]
   \<and> translationCache (new_optimizer False) = []"
  by (simp add: cacheTranslation_def Let_def Map_size_def Map_set_def cacheKey_def)

text \<open>
  Claim C8, amended. \<^verbatim>\<open>cacheTranslation\<close> has no restriction on the text: for every source
  and target language, called with the empty text it stores the entry under the key
  \<^verbatim>\<open>_<sourceLang>_<targetLang>\<close>, as it does for any other text.
\<close>

theorem cacheTranslation_empty_text_is_stored:
  "Map_get (translationCache (cacheTranslation now [] tr a b st)) (''_'' @ a @ ''_'' @ b) =
     Some (Stored \<lparr>e_originalText = [], e_translatedText = tr, e_sourceLang = a, e_targetLang = b,
           e_timestamp = now, e_hitCount = 0, e_lastAccessed = None\<rparr>)"
  by (simp add: cacheTranslation_def Let_def Map_get_def Map_set_def cacheKey_def
      AList.update_conv')

text \<open>
  Claim C10. When \<^verbatim>\<open>cacheTranslation\<close> is called while the cache holds at least
  \<^verbatim>\<open>maxCacheSize\<close> entries, the entry inserted first is removed before the store, whether
  or not the stored key is present. So when the stored key is already present (further
  on in the cache), the store overwrites it and still removes the oldest entry, which is
  another key: the cache loses one entry.
\<close>

theorem cacheTranslation_overwrite_evicts_oldest:
  assumes "Map_size (translationCache st) \<ge> maxCacheSize st"
    and "translationCache st = (k0, e0) # rest"
    and "is_Map (translationCache st)"
  shows "translationCache (cacheTranslation now t tr a b st) =
           Map_set rest (cacheKey t a b)
             (Stored \<lparr>e_originalText = t, e_translatedText = tr, e_sourceLang = a, e_targetLang = b,
              e_timestamp = now, e_hitCount = 0, e_lastAccessed = None\<rparr>)
         \<and> (Map_has rest (cacheKey t a b) \<longrightarrow>
              cacheKey t a b \<noteq> k0 \<and>
              Map_get (translationCache (cacheTranslation now t tr a b st)) k0 = None \<and>
              Map_size (translationCache (cacheTranslation now t tr a b st)) =
                Map_size (translationCache st) - 1)"
proof (intro conjI impI)
  let ?e = "(Stored \<lparr>e_originalText = t, e_translatedText = tr, e_sourceLang = a, e_targetLang = b,
              e_timestamp = now, e_hitCount = 0, e_lastAccessed = None\<rparr>)"
  show eq: "translationCache (cacheTranslation now t tr a b st) = Map_set rest (cacheKey t a b) ?e"
    by (rule cacheTranslation_evicts [OF assms])
  assume "Map_has rest (cacheKey t a b)"
  then have k: "cacheKey t a b \<in> fst ` set rest"
    by (simp add: Map_has_def map_of_eq_None_iff)
  from assms(2,3) have n: "k0 \<notin> fst ` set rest" by (simp add: is_Map_def)
  from k n show "cacheKey t a b \<noteq> k0" by auto
  from n have "k0 \<notin> fst ` set (AList.update (cacheKey t a b) ?e rest)"
    using k by (simp add: AList.dom_update insert_absorb)
  then show "Map_get (translationCache (cacheTranslation now t tr a b st)) k0 = None"
    by (simp add: eq Map_get_def Map_set_def map_of_eq_None_iff)
  from length_update_present [OF k] assms(2)
  show "Map_size (translationCache (cacheTranslation now t tr a b st)) =
          Map_size (translationCache st) - 1"
    by (simp add: eq Map_size_def Map_set_def)
qed

text \<open>
  Claim C10 at a full cache of capacity 2: storing the second key again removes the first.
\<close>

theorem cacheTranslation_overwrite_evicts_oldest_witness:
  "Map_size (translationCache full_optimizer) \<ge> maxCacheSize full_optimizer
   \<and> is_Map (translationCache full_optimizer)
   \<and> Map_has (tl (translationCache full_optimizer)) (cacheKey ''bye'' ''en'' ''es'')
   \<and> Map_get (translationCache full_optimizer) ''hi_en_es'' \<noteq> None
   \<and> Map_get (translationCache (cacheTranslation 3 ''bye'' ''chao'' ''en'' ''es'' full_optimizer))
        ''hi_en_es'' = None
   \<and> Map_size (translationCache (cacheTranslation 3 ''bye'' ''chao'' ''en'' ''es'' full_optimizer)) = 1"
  using cacheTranslation_overwrite_evicts_oldest
    [of full_optimizer "''hi_en_es''" "snd (hd (translationCache full_optimizer))"
        "tl (translationCache full_optimizer)" 3 "''bye''" "''chao''" "''en''" "''es''"]
  by (simp add: full_optimizer_cache Map_size_def is_Map_def Map_has_def Map_get_def Map_set_def
      cacheKey_def)

section \<open>Properties of the relay\<close>

lemma events_to_append [simp]: "events_to x (as @ bs) = events_to x as @ events_to x bs"
  by (induction as rule: events_to.induct) auto

lemma invocations_append [simp]: "invocations (as @ bs) = invocations as @ invocations bs"
  by (induction as rule: invocations.induct) auto

lemma events_to_Invokes [simp]: "events_to x (map (\<lambda>sv. Invoke sv t a b) svs) = []"
  by (induction svs) auto

lemma invocations_Invokes [simp]:
  "invocations (map (\<lambda>sv. Invoke sv t a b) svs) = map (\<lambda>sv. (sv, t, a, b)) svs"
  by (induction svs) auto

lemma relay_other: "fst entry \<noteq> u \<Longrightarrow> events_to u (relay w sid session text src entry) = []"
  by (simp add: relay_def Let_def split: prod.splits)

lemma relay_sender: "relay w sid session text src (sid, info) = []"
  by (simp add: relay_def)

lemma relay_member:
  "u \<noteq> sid \<Longrightarrow> length (events_to u (relay w sid session text src (u, info))) = 1"
  by (simp add: relay_def Let_def split: prod.splits)

lemma relay_kinds:
  "e \<in> set (events_to x (relay w sid session text src entry)) \<Longrightarrow>
     (\<exists>p. e = LiveTranslation p) \<or> (\<exists>t n ts. e = NewMessage t n ts)"
  by (auto simp: relay_def Let_def split: prod.splits if_splits)

lemma events_to_concat_absent:
  "u \<notin> fst ` set us \<Longrightarrow> events_to u (concat (map (relay w sid session text src) us)) = []"
  by (induction us) (auto simp: relay_other)

lemma events_to_concat_member:
  "distinct (map fst us) \<Longrightarrow> (u, info) \<in> set us \<Longrightarrow>
     events_to u (concat (map (relay w sid session text src) us)) =
     events_to u (relay w sid session text src (u, info))"
proof (induction us)
  case Nil
  then show ?case by simp
next
  case (Cons p us)
  show ?case
  proof (cases "p = (u, info)")
    case True
    with Cons.prems(1) have "u \<notin> fst ` set us" by auto
    with True show ?thesis by (simp add: events_to_concat_absent)
  next
    case False
    with Cons.prems have m: "(u, info) \<in> set us" and d: "distinct (map fst us)" by auto
    from m have "u \<in> fst ` set us" by (rule image_eqI [rotated]) simp
    with Cons.prems(1) have "fst p \<noteq> u" by auto
    with Cons.IH [OF d m] show ?thesis by (simp add: relay_other)
  qed
qed

lemma relay2_other: "fst entry \<noteq> u \<Longrightarrow> events_to u (relay2 w sid session text i entry) = []"
  by (simp add: relay2_def Let_def split: prod.splits sum.splits)

lemma relay2_le: "length (events_to u (relay2 w sid session text i entry)) \<le> 1"
  by (simp add: relay2_def Let_def split: prod.splits sum.splits)

lemma events_to_concat_absent2:
  "u \<notin> fst ` set us \<Longrightarrow> events_to u (concat (map (relay2 w sid session text i) us)) = []"
  by (induction us) (auto simp: relay2_other)

lemma events_to_concat_member2:
  "distinct (map fst us) \<Longrightarrow> (u, info) \<in> set us \<Longrightarrow>
     events_to u (concat (map (relay2 w sid session text i) us)) =
     events_to u (relay2 w sid session text i (u, info))"
proof (induction us)
  case Nil
  then show ?case by simp
next
  case (Cons p us)
  show ?case
  proof (cases "p = (u, info)")
    case True
    with Cons.prems(1) have "u \<notin> fst ` set us" by auto
    with True show ?thesis by (simp add: events_to_concat_absent2)
  next
    case False
    with Cons.prems have m: "(u, info) \<in> set us" and d: "distinct (map fst us)" by auto
    from m have "u \<in> fst ` set us" by (rule image_eqI [rotated]) simp
    with Cons.prems(1) have "fst p \<noteq> u" by auto
    with Cons.IH [OF d m] show ?thesis by (simp add: relay2_other)
  qed
qed

lemma invocations_relay_target:
  "(sv, t, a, b) \<in> set (invocations (relay w sid session text src entry)) \<Longrightarrow> b \<noteq> src"
  by (auto simp: relay_def Let_def split: prod.splits if_splits)

lemma invocations_relay2_target:
  "(sv, t, a, b) \<in> set (invocations (relay2 w sid session text i entry)) \<Longrightarrow>
     b \<noteq> userLanguage session"
  by (auto simp: relay2_def Let_def split: prod.splits if_splits sum.splits)

lemma invocations_concat:
  "set (invocations (concat (map f us))) = (\<Union>x \<in> set us. set (invocations (f x)))"
  by (induction us) auto

lemma relay_first_invocation:
  assumes "u \<noteq> sid" and "userLanguage info \<noteq> src"
  shows "take 1 (invocations (relay w sid session text src (u, info))) =
           [(LibreTranslate, text, src, userLanguage info)]"
proof -
  from try_services_first [of "\<lambda>sv. net w u sv text src (userLanguage info)" LibreTranslate
      "[MyMemory, Lingva]"]
  obtain called where
    "fst (translateWithFreeServices (net w u) text src (userLanguage info)) = LibreTranslate # called"
    unfolding translateWithFreeServices_def services_def by blast
  with assms show ?thesis by (simp add: relay_def Let_def case_prod_beta)
qed

lemma relay2_first_invocation:
  assumes "u \<noteq> sid" and "userLanguage info \<noteq> userLanguage session"
  shows "take 1 (invocations (relay2 w sid session text i (u, info))) =
           [(LibreTranslate, text, userLanguage session, userLanguage info)]"
proof -
  from try_services_first
    [of "\<lambda>sv. net w u sv text (userLanguage session) (userLanguage info)" LibreTranslate
      "[MyMemory, Lingva]"]
  obtain called where
    "fst (translateWithFreeServices (net w u) text (userLanguage session) (userLanguage info)) =
       LibreTranslate # called"
    unfolding translateWithFreeServices_def services_def by blast
  with assms show ?thesis by (simp add: relay2_def Let_def case_prod_beta)
qed


text \<open>The scenarios, evaluated.\<close>

lemma alice_alone_eq:
  "alice_alone =
     \<lparr>rooms = [(''R1'', \<lparr>room_id = ''R1'',
         users = [(''alice'', \<lparr>userName = ''Alice'', userLanguage = ''en'', joinedAt = 1\<rparr>)],
         createdAt = 1\<rparr>)],
      userSessions = [(''alice'', \<lparr>userName = ''Alice'', userLanguage = ''en'', roomId = ''R1''\<rparr>)]\<rparr>"
  by (simp add: alice_alone_def join_room_def init_server_def Map_get_def Map_set_def Let_def)

lemma alice_bob_eq:
  "alice_bob =
     \<lparr>rooms = [(''R1'', \<lparr>room_id = ''R1'',
         users = [(''alice'', \<lparr>userName = ''Alice'', userLanguage = ''en'', joinedAt = 1\<rparr>),
                  (''bob'', \<lparr>userName = ''Bob'', userLanguage = ''es'', joinedAt = 2\<rparr>)],
         createdAt = 1\<rparr>)],
      userSessions = [(''alice'', \<lparr>userName = ''Alice'', userLanguage = ''en'', roomId = ''R1''\<rparr>),
                      (''bob'', \<lparr>userName = ''Bob'', userLanguage = ''es'', roomId = ''R1''\<rparr>)]\<rparr>"
  by (simp add: alice_bob_def alice_alone_eq join_room_def Map_get_def Map_set_def Let_def)

lemma alice_bob_carol_eq:
  "alice_bob_carol =
     \<lparr>rooms = [(''R1'', \<lparr>room_id = ''R1'',
         users = [(''alice'', \<lparr>userName = ''Alice'', userLanguage = ''en'', joinedAt = 1\<rparr>),
                  (''bob'', \<lparr>userName = ''Bob'', userLanguage = ''es'', joinedAt = 2\<rparr>),
                  (''carol'', \<lparr>userName = ''Carol'', userLanguage = ''en'', joinedAt = 3\<rparr>)],
         createdAt = 1\<rparr>)],
      userSessions = [(''alice'', \<lparr>userName = ''Alice'', userLanguage = ''en'', roomId = ''R1''\<rparr>),
                      (''bob'', \<lparr>userName = ''Bob'', userLanguage = ''es'', roomId = ''R1''\<rparr>),
                      (''carol'', \<lparr>userName = ''Carol'', userLanguage = ''en'', roomId = ''R1''\<rparr>)]\<rparr>"
  by (simp add: alice_bob_carol_def alice_bob_eq join_room_def Map_get_def Map_set_def Let_def)

lemma alice_alone2_eq:
  "alice_alone2 =
     \<lparr>activeRooms = [(''R1'',
         [(''alice'', \<lparr>userName = ''Alice'', userLanguage = ''en'', joinedAt = 1\<rparr>)])],
      userSessions2 = [(''alice'', \<lparr>userName = ''Alice'', userLanguage = ''en'', roomId = ''R1'',
                          sessionJoinedAt = 1\<rparr>)]\<rparr>"
  by (simp add: alice_alone2_def join_room2_def init_server2_def updateRoomUsers_def Map_get_def
      Map_set_def Map_has_def Let_def)

lemma alice_bob2_eq:
  "alice_bob2 =
     \<lparr>activeRooms = [(''R1'',
         [(''alice'', \<lparr>userName = ''Alice'', userLanguage = ''en'', joinedAt = 1\<rparr>),
          (''bob'', \<lparr>userName = ''Bob'', userLanguage = ''es'', joinedAt = 2\<rparr>)])],
      userSessions2 = [(''alice'', \<lparr>userName = ''Alice'', userLanguage = ''en'', roomId = ''R1'',
                          sessionJoinedAt = 1\<rparr>),
                       (''bob'', \<lparr>userName = ''Bob'', userLanguage = ''es'', roomId = ''R1'',
                          sessionJoinedAt = 2\<rparr>)]\<rparr>"
  by (simp add: alice_bob2_def alice_alone2_eq join_room2_def updateRoomUsers_def Map_get_def
      Map_set_def Map_has_def Let_def)

lemma alice_bob_carol2_eq:
  "alice_bob_carol2 =
     \<lparr>activeRooms = [(''R1'',
         [(''alice'', \<lparr>userName = ''Alice'', userLanguage = ''en'', joinedAt = 1\<rparr>),
          (''bob'', \<lparr>userName = ''Bob'', userLanguage = ''es'', joinedAt = 2\<rparr>),
          (''carol'', \<lparr>userName = ''Carol'', userLanguage = ''en'', joinedAt = 3\<rparr>)])],
      userSessions2 = [(''alice'', \<lparr>userName = ''Alice'', userLanguage = ''en'', roomId = ''R1'',
                          sessionJoinedAt = 1\<rparr>),
                       (''bob'', \<lparr>userName = ''Bob'', userLanguage = ''es'', roomId = ''R1'',
                          sessionJoinedAt = 2\<rparr>),
                       (''carol'', \<lparr>userName = ''Carol'', userLanguage = ''en'', roomId = ''R1'',
                          sessionJoinedAt = 3\<rparr>)]\<rparr>"
  by (simp add: alice_bob_carol2_def alice_bob2_eq join_room2_def updateRoomUsers_def Map_get_def
      Map_set_def Map_has_def Let_def)

lemmas eval_defs = live_speech_def live_speech2_def relay_def relay2_def getRoomUsers_def
  translateWithFreeServices_def services_def hola_world_def down_world_def hola_net_def
  down_net_def Map_get_def Map_keys_def is_Map_def Let_def

text \<open>
  Claim C2, as stated, on the second server file: Alice (en) and Bob (es) share a room,
  every translation service is down, Alice says \<^verbatim>\<open>X\<close>. The chain fails for Bob and the
  handler of the second file emits nothing to him.
\<close>

theorem live_speech2_drops_failed_translation:
  "snd (translateWithFreeServices (net down_world ''bob'') ''X'' ''en'' ''es'') =
     Inl ''All translation services failed''
   \<and> Map_get (getRoomUsers ''R1'' alice_bob2) ''bob'' =
       Some \<lparr>userName = ''Bob'', userLanguage = ''es'', joinedAt = 2\<rparr>
   \<and> events_to ''bob'' (live_speech2 down_world ''alice'' ''X'' False alice_bob2) = []"
  by (simp add: alice_bob2_eq eval_defs)

text \<open>
  Claim C2, amended to the first server file. There, for every member of the sender's
  room other than the sender whose language differs from the utterance's source language
  and for whom the provider chain fails, the \<^verbatim>\<open>live-speech\<close> handler emits to that member
  exactly one event: a \<^verbatim>\<open>live-translation\<close> whose \<^verbatim>\<open>translatedText\<close> is the original text
  and whose \<^verbatim>\<open>error\<close> is \<^verbatim>\<open>Translation failed\<close>.
\<close>

theorem live_speech_failure_passthrough:
  assumes "Map_get (userSessions s) sid = Some session"
    and "Map_get (rooms s) (roomId session) = Some room"
    and "is_Map (users room)"
    and "(u, info) \<in> set (users room)"
    and "u \<noteq> sid"
    and "userLanguage info \<noteq> src"
    and "snd (translateWithFreeServices (net w u) text src (userLanguage info)) = Inl err"
  shows "events_to u (live_speech w sid text src s) =
           [LiveTranslation
              \<lparr>originalText = text, translatedText = text, speakerName = userName session,
               sourceLanguage = src, targetLanguage = userLanguage info,
               timestamp = clock w u, error = Some ''Translation failed''\<rparr>]"
proof -
  from assms(1,2) have "events_to u (live_speech w sid text src s) =
      events_to u (concat (map (relay w sid session text src) (users room)))"
    by (simp add: live_speech_def)
  also from assms(3,4) have "\<dots> = events_to u (relay w sid session text src (u, info))"
    by (simp add: events_to_concat_member is_Map_def)
  also from assms(5,6,7) have "\<dots> =
      [LiveTranslation
         \<lparr>originalText = text, translatedText = text, speakerName = userName session,
          sourceLanguage = src, targetLanguage = userLanguage info,
          timestamp = clock w u, error = Some ''Translation failed''\<rparr>]"
    by (cases "translateWithFreeServices (net w u) text src (userLanguage info)")
       (simp add: relay_def Let_def)
  finally show ?thesis .
qed

text \<open>
  The amended claim C2 for Alice (en) and Bob (es) on the first server file, with every
  translation service down.
\<close>

theorem live_speech_failure_passthrough_witness:
  "Map_get (userSessions alice_bob) ''alice'' =
     Some \<lparr>userName = ''Alice'', userLanguage = ''en'', roomId = ''R1''\<rparr>
   \<and> (''bob'', \<lparr>userName = ''Bob'', userLanguage = ''es'', joinedAt = 2\<rparr>)
        \<in> set (users (snd (hd (rooms alice_bob))))
   \<and> snd (translateWithFreeServices (net down_world ''bob'') ''X'' ''en'' ''es'') =
        Inl ''All translation services failed''
   \<and> events_to ''bob'' (live_speech down_world ''alice'' ''X'' ''en'' alice_bob) =
        [LiveTranslation
           \<lparr>originalText = ''X'', translatedText = ''X'', speakerName = ''Alice'',
            sourceLanguage = ''en'', targetLanguage = ''es'',
            timestamp = 7, error = Some ''Translation failed''\<rparr>]"
  using live_speech_failure_passthrough
    [of alice_bob "''alice''" "\<lparr>userName = ''Alice'', userLanguage = ''en'', roomId = ''R1''\<rparr>"
        "snd (hd (rooms alice_bob))" "''bob''"
        "\<lparr>userName = ''Bob'', userLanguage = ''es'', joinedAt = 2\<rparr>" "''en''" down_world "''X''"
        "''All translation services failed''"]
  by (simp add: alice_bob_eq eval_defs)


text \<open>
  Claim C3, as stated, on the second server file: Alice (en), Bob (es) and Carol (en) share
  a room, Alice says \<^verbatim>\<open>Hi\<close>. Carol is a member other than the sender and no event is
  emitted to her.
\<close>

theorem live_speech2_skips_same_language_member:
  "Map_get (userSessions2 alice_bob_carol2) ''alice'' =
     Some \<lparr>userName = ''Alice'', userLanguage = ''en'', roomId = ''R1'', sessionJoinedAt = 1\<rparr>
   \<and> Map_keys (getRoomUsers ''R1'' alice_bob_carol2) = [''alice'', ''bob'', ''carol'']
   \<and> events_to ''carol'' (live_speech2 hola_world ''alice'' ''Hi'' False alice_bob_carol2) = []"
  by (simp add: alice_bob_carol2_eq eval_defs)

text \<open>
  Claim C3, amended. In the first server file, an utterance of a connection that has a
  session in a room produces exactly one event for every member of the room other than
  the sender, a \<^verbatim>\<open>live-translation\<close> or a \<^verbatim>\<open>new-message\<close>, and none for the sender or for
  anyone who is not a member. In the second server file it produces at most one event
  for anyone, none for the sender, for a non-member and for a member of the sender's
  language, and exactly one \<^verbatim>\<open>live-translation\<close> for a member of another language whose
  translation succeeds. A member's language is the one in the member's entry of the room.
\<close>

theorem live_speech_one_event_per_member:
  "(Map_get (userSessions s) sid = Some session \<longrightarrow>
    Map_get (rooms s) (roomId session) = Some room \<longrightarrow> is_Map (users room) \<longrightarrow>
      length (events_to u (live_speech w sid text src s)) =
        (if u \<in> set (Map_keys (users room)) \<and> u \<noteq> sid then 1 else 0)
      \<and> (\<forall>e \<in> set (events_to u (live_speech w sid text src s)).
            (\<exists>p. e = LiveTranslation p) \<or> (\<exists>t n ts. e = NewMessage t n ts)))
   \<and> (Map_get (userSessions2 s2) sid = Some session2 \<longrightarrow>
      is_Map (getRoomUsers (roomId session2) s2) \<longrightarrow>
        length (events_to u (live_speech2 w sid text interim s2)) \<le> 1
        \<and> (u = sid \<or> u \<notin> set (Map_keys (getRoomUsers (roomId session2) s2)) \<longrightarrow>
             events_to u (live_speech2 w sid text interim s2) = [])
        \<and> (\<forall>info. (u, info) \<in> set (getRoomUsers (roomId session2) s2) \<longrightarrow> u \<noteq> sid \<longrightarrow>
             (userLanguage info = userLanguage session2 \<longrightarrow>
                events_to u (live_speech2 w sid text interim s2) = [])
             \<and> (userLanguage info \<noteq> userLanguage session2 \<longrightarrow>
                (\<forall>translation.
                   snd (translateWithFreeServices (net w u) text (userLanguage session2)
                          (userLanguage info)) = Inr translation \<longrightarrow>
                   events_to u (live_speech2 w sid text interim s2) =
                     [LiveTranslation2
                        \<lparr>originalText = text, translatedText = translation,
                         speakerName = userName session2, sourceLanguage = userLanguage session2,
                         targetLanguage = userLanguage info, timestamp = clock w u,
                         speakerId = sid, isInterim = interim\<rparr>]))))"
proof (intro conjI impI allI)
  assume a: "Map_get (userSessions s) sid = Some session"
    "Map_get (rooms s) (roomId session) = Some room" "is_Map (users room)"
  then have ls: "live_speech w sid text src s =
      concat (map (relay w sid session text src) (users room))"
    by (simp add: live_speech_def)
  show "length (events_to u (live_speech w sid text src s)) =
        (if u \<in> set (Map_keys (users room)) \<and> u \<noteq> sid then 1 else 0)"
  proof (cases "u \<in> fst ` set (users room)")
    case False
    then show ?thesis by (simp add: ls events_to_concat_absent Map_keys_def)
  next
    case True
    then obtain info where m: "(u, info) \<in> set (users room)" by auto
    from a(3) m have "events_to u (live_speech w sid text src s) =
        events_to u (relay w sid session text src (u, info))"
      by (simp add: ls events_to_concat_member is_Map_def)
    with True show ?thesis
      by (cases "u = sid") (simp_all add: relay_sender relay_member Map_keys_def)
  qed
  show "\<forall>e \<in> set (events_to u (live_speech w sid text src s)).
          (\<exists>p. e = LiveTranslation p) \<or> (\<exists>t n ts. e = NewMessage t n ts)"
  proof (cases "u \<in> fst ` set (users room)")
    case False
    then show ?thesis by (simp add: ls events_to_concat_absent)
  next
    case True
    then obtain info where m: "(u, info) \<in> set (users room)" by auto
    from a(3) m have "events_to u (live_speech w sid text src s) =
        events_to u (relay w sid session text src (u, info))"
      by (simp add: ls events_to_concat_member is_Map_def)
    then show ?thesis using relay_kinds by metis
  qed
next
  assume b: "Map_get (userSessions2 s2) sid = Some session2"
    "is_Map (getRoomUsers (roomId session2) s2)"
  let ?us = "getRoomUsers (roomId session2) s2"
  from b(1) have ls: "live_speech2 w sid text interim s2 =
      concat (map (relay2 w sid session2 text interim) ?us)"
    by (simp add: live_speech2_def)
  have mem: "events_to u (live_speech2 w sid text interim s2) =
      events_to u (relay2 w sid session2 text interim (u, info))" if "(u, info) \<in> set ?us" for info
    using that b(2) by (simp add: ls events_to_concat_member2 is_Map_def)
  show "length (events_to u (live_speech2 w sid text interim s2)) \<le> 1"
  proof (cases "u \<in> fst ` set ?us")
    case False
    then show ?thesis by (simp add: ls events_to_concat_absent2)
  next
    case True
    then obtain info where "(u, info) \<in> set ?us" by auto
    from mem [OF this] relay2_le [of u w sid session2 "text" interim "(u, info)"]
    show ?thesis by simp
  qed
  {
    assume c: "u = sid \<or> u \<notin> set (Map_keys ?us)"
    show "events_to u (live_speech2 w sid text interim s2) = []"
    proof (cases "u \<in> fst ` set ?us")
      case False
      then show ?thesis by (simp add: ls events_to_concat_absent2)
    next
      case True
      then obtain info where m: "(u, info) \<in> set ?us" by auto
      from True c have "u = sid" by (simp add: Map_keys_def)
      with mem [OF m] show ?thesis by (simp add: relay2_def Let_def)
    qed
  }
  {
    fix info
    assume m: "(u, info) \<in> set ?us" and n: "u \<noteq> sid"
    {
      assume "userLanguage info = userLanguage session2"
      with mem [OF m] show "events_to u (live_speech2 w sid text interim s2) = []"
        by (simp add: relay2_def Let_def)
    }
    {
      fix translation
      assume "userLanguage info \<noteq> userLanguage session2"
        and "snd (translateWithFreeServices (net w u) text (userLanguage session2)
                          (userLanguage info)) = Inr translation"
      with mem [OF m] n
      show "events_to u (live_speech2 w sid text interim s2) =
                     [LiveTranslation2
                        \<lparr>originalText = text, translatedText = translation,
                         speakerName = userName session2, sourceLanguage = userLanguage session2,
                         targetLanguage = userLanguage info, timestamp = clock w u,
                         speakerId = sid, isInterim = interim\<rparr>]"
        by (cases "translateWithFreeServices (net w u) text (userLanguage session2)
                          (userLanguage info)") (simp add: relay2_def Let_def)
    }
  }
qed

text \<open>
  The amended claim C3 for Alice (en), Bob (es) and Carol (en), Alice speaking and the
  services up: one event for Bob in either server file.
\<close>

theorem live_speech_one_event_per_member_witness:
  "Map_get (userSessions alice_bob_carol) ''alice'' =
     Some \<lparr>userName = ''Alice'', userLanguage = ''en'', roomId = ''R1''\<rparr>
   \<and> is_Map (users (snd (hd (rooms alice_bob_carol))))
   \<and> length (events_to ''bob'' (live_speech hola_world ''alice'' ''Hi'' ''en'' alice_bob_carol)) = 1
   \<and> Map_get (userSessions2 alice_bob_carol2) ''alice'' =
     Some \<lparr>userName = ''Alice'', userLanguage = ''en'', roomId = ''R1'', sessionJoinedAt = 1\<rparr>
   \<and> is_Map (getRoomUsers ''R1'' alice_bob_carol2)
   \<and> (''bob'', \<lparr>userName = ''Bob'', userLanguage = ''es'', joinedAt = 2\<rparr>)
        \<in> set (getRoomUsers ''R1'' alice_bob_carol2)
   \<and> snd (translateWithFreeServices (net hola_world ''bob'') ''Hi'' ''en'' ''es'') = Inr ''Hola''
   \<and> length (events_to ''bob'' (live_speech2 hola_world ''alice'' ''Hi'' False alice_bob_carol2)) = 1"
  using live_speech_one_event_per_member
    [of alice_bob_carol "''alice''" "\<lparr>userName = ''Alice'', userLanguage = ''en'', roomId = ''R1''\<rparr>"
        "snd (hd (rooms alice_bob_carol))" "''bob''" hola_world "''Hi''" "''en''"
        alice_bob_carol2
        "\<lparr>userName = ''Alice'', userLanguage = ''en'', roomId = ''R1'', sessionJoinedAt = 1\<rparr>"
        False]
  by (simp add: alice_bob_carol_eq alice_bob_carol2_eq eval_defs)


text \<open>
  Claim C4, as stated. In the second server file a recipient with the sender's language
  gets no event at all: Alice (en), Bob (es) and Carol (en) share a room, Alice says
  \<^verbatim>\<open>Hi\<close>, and nothing is emitted to Carol. In the same file \<^verbatim>\<open>change-language\<close> updates
  the session of the connection only, while the relay reads the language of the member
  entry written at the join: after Bob has changed his language to en, the sender's
  language, LibreTranslate is still called from en to es for him, and he gets the
  translation. In the first server file the relay compares with the \<^verbatim>\<open>sourceLanguage\<close>
  of the utterance, not with the language of the sender's session: for an utterance of
  Alice (en) sent with the source language fr, LibreTranslate is called for Carol (en),
  and Carol gets a translation.
\<close>

theorem same_language_recipient_is_not_passed_through:
  "map_option userLanguage (Map_get (userSessions2 alice_bob_carol2) ''alice'') = Some ''en''
   \<and> map_option userLanguage (Map_get (userSessions2 alice_bob_carol2) ''carol'') = Some ''en''
   \<and> map_option userLanguage (Map_get (getRoomUsers ''R1'' alice_bob_carol2) ''carol'') = Some ''en''
   \<and> events_to ''carol'' (live_speech2 hola_world ''alice'' ''Hi'' False alice_bob_carol2) = []
   \<and> map_option userLanguage
        (Map_get (userSessions2 (fst (change_language2 4 ''bob'' ''en'' alice_bob2))) ''alice'') =
       Some ''en''
   \<and> map_option userLanguage
        (Map_get (userSessions2 (fst (change_language2 4 ''bob'' ''en'' alice_bob2))) ''bob'') =
       Some ''en''
   \<and> map_option userLanguage
        (Map_get (getRoomUsers ''R1'' (fst (change_language2 4 ''bob'' ''en'' alice_bob2))) ''bob'') =
       Some ''es''
   \<and> live_speech2 hola_world ''alice'' ''Hi'' False
        (fst (change_language2 4 ''bob'' ''en'' alice_bob2)) =
       [Invoke LibreTranslate ''Hi'' ''en'' ''es'',
        Emit (Others ''bob'' ''alice'')
          (LiveTranslation2
             \<lparr>originalText = ''Hi'', translatedText = ''Hola'', speakerName = ''Alice'',
              sourceLanguage = ''en'', targetLanguage = ''es'', timestamp = 7,
              speakerId = ''alice'', isInterim = False\<rparr>)]
   \<and> map_option userLanguage (Map_get (userSessions alice_bob_carol) ''alice'') = Some ''en''
   \<and> map_option userLanguage (Map_get (userSessions alice_bob_carol) ''carol'') = Some ''en''
   \<and> invocations (relay hola_world ''alice''
        \<lparr>userName = ''Alice'', userLanguage = ''en'', roomId = ''R1''\<rparr> ''Salut'' ''fr''
        (''carol'', \<lparr>userName = ''Carol'', userLanguage = ''en'', joinedAt = 3\<rparr>)) =
       [(LibreTranslate, ''Salut'', ''fr'', ''en'')]
   \<and> events_to ''carol'' (live_speech hola_world ''alice'' ''Salut'' ''fr'' alice_bob_carol) =
       [LiveTranslation
          \<lparr>originalText = ''Salut'', translatedText = ''Hola'', speakerName = ''Alice'',
           sourceLanguage = ''fr'', targetLanguage = ''en'', timestamp = 7, error = None\<rparr>]"
  by (simp add: alice_bob_carol_eq alice_bob_carol2_eq alice_bob2_eq change_language2_def
      Map_set_def eval_defs)

text \<open>
  Claim C4, amended. First server file: for a member of the sender's room, other than
  the sender, whose language is the \<^verbatim>\<open>sourceLanguage\<close> of the utterance, the one event
  emitted to the member is a \<^verbatim>\<open>new-message\<close> carrying the original text, and the relay
  to that member calls no translation service. Second server file: for a member, other
  than the sender, whose member entry holds the language of the member's session, and
  whose language is that of the sender's session, nothing is emitted to the member and
  no translation service is called for the member. In both files a member with another
  language has the provider chain called, LibreTranslate first, from the source language
  to the member's language, and no service is ever called with the source language as
  target.
\<close>

theorem same_source_language_passthrough:
  "(Map_get (userSessions s) sid = Some session \<longrightarrow>
    Map_get (rooms s) (roomId session) = Some room \<longrightarrow> is_Map (users room) \<longrightarrow>
    (u, info) \<in> set (users room) \<longrightarrow> u \<noteq> sid \<longrightarrow>
      (userLanguage info = src \<longrightarrow>
         events_to u (live_speech w sid text src s) =
           [NewMessage text (userName session) (clock w u)]
         \<and> invocations (relay w sid session text src (u, info)) = [])
      \<and> (userLanguage info \<noteq> src \<longrightarrow>
           take 1 (invocations (relay w sid session text src (u, info))) =
             [(LibreTranslate, text, src, userLanguage info)])
      \<and> (\<forall>(sv, t, a, b) \<in> set (invocations (live_speech w sid text src s)). b \<noteq> src))
   \<and> (Map_get (userSessions2 s2) sid = Some session2 \<longrightarrow>
      is_Map (getRoomUsers (roomId session2) s2) \<longrightarrow>
      (u, info) \<in> set (getRoomUsers (roomId session2) s2) \<longrightarrow> u \<noteq> sid \<longrightarrow>
      Map_get (userSessions2 s2) u = Some usession \<longrightarrow>
      userLanguage info = userLanguage usession \<longrightarrow>
        (userLanguage usession = userLanguage session2 \<longrightarrow>
           events_to u (live_speech2 w sid text interim s2) = []
           \<and> invocations (relay2 w sid session2 text interim (u, info)) = [])
        \<and> (userLanguage usession \<noteq> userLanguage session2 \<longrightarrow>
             take 1 (invocations (relay2 w sid session2 text interim (u, info))) =
               [(LibreTranslate, text, userLanguage session2, userLanguage usession)])
        \<and> (\<forall>(sv, t, a, b) \<in> set (invocations (live_speech2 w sid text interim s2)).
              b \<noteq> userLanguage session2))"
proof (intro conjI impI)
  assume a: "Map_get (userSessions s) sid = Some session"
    "Map_get (rooms s) (roomId session) = Some room" "is_Map (users room)"
    "(u, info) \<in> set (users room)" "u \<noteq> sid"
  then have ls: "live_speech w sid text src s =
      concat (map (relay w sid session text src) (users room))"
    by (simp add: live_speech_def)
  from a(3,4) have e: "events_to u (live_speech w sid text src s) =
      events_to u (relay w sid session text src (u, info))"
    by (simp add: ls events_to_concat_member is_Map_def)
  show "\<forall>(sv, t, a, b) \<in> set (invocations (live_speech w sid text src s)). b \<noteq> src"
    by (auto simp: ls invocations_concat dest: invocations_relay_target)
  show "take 1 (invocations (relay w sid session text src (u, info))) =
             [(LibreTranslate, text, src, userLanguage info)]" if "userLanguage info \<noteq> src"
    using a(5) that by (rule relay_first_invocation)
  assume "userLanguage info = src"
  with e a(5)
  show "events_to u (live_speech w sid text src s) = [NewMessage text (userName session) (clock w u)]"
    and "invocations (relay w sid session text src (u, info)) = []"
    by (simp_all add: relay_def)
next
  assume b: "Map_get (userSessions2 s2) sid = Some session2"
    "is_Map (getRoomUsers (roomId session2) s2)"
    "(u, info) \<in> set (getRoomUsers (roomId session2) s2)" "u \<noteq> sid"
    "Map_get (userSessions2 s2) u = Some usession"
    "userLanguage info = userLanguage usession"
  from b(1) have ls: "live_speech2 w sid text interim s2 =
      concat (map (relay2 w sid session2 text interim) (getRoomUsers (roomId session2) s2))"
    by (simp add: live_speech2_def)
  from b(2,3) have e: "events_to u (live_speech2 w sid text interim s2) =
      events_to u (relay2 w sid session2 text interim (u, info))"
    by (simp add: ls events_to_concat_member2 is_Map_def)
  show "\<forall>(sv, t, a, b) \<in> set (invocations (live_speech2 w sid text interim s2)).
          b \<noteq> userLanguage session2"
    by (auto simp: ls invocations_concat dest: invocations_relay2_target)
  show "take 1 (invocations (relay2 w sid session2 text interim (u, info))) =
               [(LibreTranslate, text, userLanguage session2, userLanguage usession)]"
    if "userLanguage usession \<noteq> userLanguage session2"
    using relay2_first_invocation [of u sid info session2 w "text" interim] b(4,6) that by simp
  assume "userLanguage usession = userLanguage session2"
  with e b(6)
  show "events_to u (live_speech2 w sid text interim s2) = []"
    and "invocations (relay2 w sid session2 text interim (u, info)) = []"
    by (simp_all add: relay2_def Let_def)
qed

text \<open>
  The amended claim C4 for Alice (en), Bob (es) and Carol (en), Alice speaking: Carol gets
  the original text in the first file and nothing in the second, and the only service
  call is the one towards Bob's language.
\<close>

theorem same_source_language_passthrough_witness:
  "Map_get (userSessions alice_bob_carol) ''alice'' =
     Some \<lparr>userName = ''Alice'', userLanguage = ''en'', roomId = ''R1''\<rparr>
   \<and> is_Map (users (snd (hd (rooms alice_bob_carol))))
   \<and> (''carol'', \<lparr>userName = ''Carol'', userLanguage = ''en'', joinedAt = 3\<rparr>)
        \<in> set (users (snd (hd (rooms alice_bob_carol))))
   \<and> (''bob'', \<lparr>userName = ''Bob'', userLanguage = ''es'', joinedAt = 2\<rparr>)
        \<in> set (users (snd (hd (rooms alice_bob_carol))))
   \<and> events_to ''carol'' (live_speech hola_world ''alice'' ''Hi'' ''en'' alice_bob_carol) =
        [NewMessage ''Hi'' ''Alice'' 7]
   \<and> invocations (live_speech hola_world ''alice'' ''Hi'' ''en'' alice_bob_carol) =
        [(LibreTranslate, ''Hi'', ''en'', ''es'')]
   \<and> Map_get (userSessions2 alice_bob_carol2) ''alice'' =
     Some \<lparr>userName = ''Alice'', userLanguage = ''en'', roomId = ''R1'', sessionJoinedAt = 1\<rparr>
   \<and> Map_get (userSessions2 alice_bob_carol2) ''carol'' =
     Some \<lparr>userName = ''Carol'', userLanguage = ''en'', roomId = ''R1'', sessionJoinedAt = 3\<rparr>
   \<and> Map_get (userSessions2 alice_bob_carol2) ''bob'' =
     Some \<lparr>userName = ''Bob'', userLanguage = ''es'', roomId = ''R1'', sessionJoinedAt = 2\<rparr>
   \<and> is_Map (getRoomUsers ''R1'' alice_bob_carol2)
   \<and> (''carol'', \<lparr>userName = ''Carol'', userLanguage = ''en'', joinedAt = 3\<rparr>)
        \<in> set (getRoomUsers ''R1'' alice_bob_carol2)
   \<and> (''bob'', \<lparr>userName = ''Bob'', userLanguage = ''es'', joinedAt = 2\<rparr>)
        \<in> set (getRoomUsers ''R1'' alice_bob_carol2)
   \<and> events_to ''carol'' (live_speech2 hola_world ''alice'' ''Hi'' False alice_bob_carol2) = []
   \<and> invocations (live_speech2 hola_world ''alice'' ''Hi'' False alice_bob_carol2) =
        [(LibreTranslate, ''Hi'', ''en'', ''es'')]"
  using same_source_language_passthrough
    [of alice_bob_carol "''alice''" "\<lparr>userName = ''Alice'', userLanguage = ''en'', roomId = ''R1''\<rparr>"
        "snd (hd (rooms alice_bob_carol))" "''carol''"
        "\<lparr>userName = ''Carol'', userLanguage = ''en'', joinedAt = 3\<rparr>" "''en''"
        hola_world "''Hi''" alice_bob_carol2
        "\<lparr>userName = ''Alice'', userLanguage = ''en'', roomId = ''R1'', sessionJoinedAt = 1\<rparr>"
        "\<lparr>userName = ''Carol'', userLanguage = ''en'', roomId = ''R1'', sessionJoinedAt = 3\<rparr>"
        False]
    same_source_language_passthrough
    [of alice_bob_carol "''alice''" "\<lparr>userName = ''Alice'', userLanguage = ''en'', roomId = ''R1''\<rparr>"
        "snd (hd (rooms alice_bob_carol))" "''bob''"
        "\<lparr>userName = ''Bob'', userLanguage = ''es'', joinedAt = 2\<rparr>" "''en''"
        hola_world "''Hi''" alice_bob_carol2
        "\<lparr>userName = ''Alice'', userLanguage = ''en'', roomId = ''R1'', sessionJoinedAt = 1\<rparr>"
        "\<lparr>userName = ''Bob'', userLanguage = ''es'', roomId = ''R1'', sessionJoinedAt = 2\<rparr>"
        False]
  by (simp add: alice_bob_carol_eq alice_bob_carol2_eq eval_defs)

section \<open>Properties of the room registry\<close>

lemma set_update_subset: "set (AList.update k v al) \<subseteq> insert (k, v) (set al)"
  by (induction al) auto

lemma set_delete_subset: "set (AList.delete k al) \<subseteq> set al"
  by (induction al) auto

lemma no_empty_room_iff:
  "no_empty_room s \<longleftrightarrow> (\<forall>(rid, room) \<in> set (rooms s). users room \<noteq> [])"
  by (simp add: no_empty_room_def list_all_iff)

lemma leave_room_no_empty:
  assumes "\<forall>(rid, room) \<in> set rs. users room \<noteq> []"
  shows "\<forall>(rid, room) \<in> set (fst (leave_room sid session rs)). users room \<noteq> []"
proof (cases "Map_get rs (roomId session)")
  case None
  with assms show ?thesis by (simp add: leave_room_def)
next
  case (Some room)
  show ?thesis
  proof (cases "Map_delete (users room) sid = []")
    case True
    with Some assms set_delete_subset [of "roomId session" rs] show ?thesis
      by (auto simp: leave_room_def Let_def Map_size_def Map_delete_def)
  next
    case False
    with Some assms
      set_update_subset [of "roomId session" "room\<lparr>users := Map_delete (users room) sid\<rparr>" rs]
    show ?thesis
      by (auto simp: leave_room_def Let_def Map_size_def Map_set_def)
  qed
qed

lemma join_room_no_empty:
  assumes "no_empty_room s"
  shows "no_empty_room (fst (join_room now sid rid uname ulang s))"
proof -
  define rooms1 where "rooms1 = (case Map_get (userSessions s) sid of
      None \<Rightarrow> rooms s | Some prevSession \<Rightarrow> fst (leave_room sid prevSession (rooms s)))"
  from assms have r1: "\<forall>(rid, room) \<in> set rooms1. users room \<noteq> []"
    using leave_room_no_empty [of "rooms s" sid]
    by (auto simp: rooms1_def no_empty_room_iff split: option.splits)
  define room where "room = (case Map_get rooms1 rid of Some r \<Rightarrow> r
      | None \<Rightarrow> \<lparr>room_id = rid, users = [], createdAt = now\<rparr>)"
  define room' where "room' = room\<lparr>users := Map_set (users room) sid
      \<lparr>userName = uname, userLanguage = ulang, joinedAt = now\<rparr>\<rparr>"
  have e: "rooms (fst (join_room now sid rid uname ulang s)) = Map_set rooms1 rid room'"
    by (simp add: join_room_def rooms1_def room_def room'_def Let_def
        split: option.splits prod.splits)
  have "users room' \<noteq> []" by (simp add: room'_def Map_set_def)
  with r1 set_update_subset [of rid room' rooms1] show ?thesis
    by (auto simp: e no_empty_room_iff Map_set_def)
qed

lemma disconnect_no_empty:
  assumes "no_empty_room s"
  shows "no_empty_room (fst (disconnect sid s))"
proof (cases "Map_get (userSessions s) sid")
  case None
  with assms show ?thesis by (simp add: disconnect_def)
next
  case (Some session)
  then have "rooms (fst (disconnect sid s)) = fst (leave_room sid session (rooms s))"
    by (simp add: disconnect_def split: prod.splits)
  with assms leave_room_no_empty [of "rooms s" sid session] show ?thesis
    by (simp add: no_empty_room_iff)
qed

lemma change_language_no_empty:
  assumes "no_empty_room s"
  shows "no_empty_room (fst (change_language sid language s))"
proof -
  have "set (rooms (fst (change_language sid language s))) \<subseteq> set (rooms s) \<or>
    (\<exists>rid room info. rooms (fst (change_language sid language s)) =
       AList.update rid (room\<lparr>users := AList.update sid info (users room)\<rparr>) (rooms s))"
    by (auto simp: change_language_def Let_def Map_set_def split: option.splits)
  then show ?thesis
  proof
    assume "set (rooms (fst (change_language sid language s))) \<subseteq> set (rooms s)"
    with assms show ?thesis by (auto simp: no_empty_room_iff)
  next
    assume "\<exists>rid room info. rooms (fst (change_language sid language s)) =
       AList.update rid (room\<lparr>users := AList.update sid info (users room)\<rparr>) (rooms s)"
    then obtain rid room info where e: "rooms (fst (change_language sid language s)) =
       AList.update rid (room\<lparr>users := AList.update sid info (users room)\<rparr>) (rooms s)"
      by blast
    from assms
      set_update_subset [of rid "room\<lparr>users := AList.update sid info (users room)\<rparr>" "rooms s"]
    show ?thesis by (auto simp: e no_empty_room_iff)
  qed
qed

lemma handle_no_empty:
  "no_empty_room s \<Longrightarrow> no_empty_room (fst (handle w now sid msg s))"
  by (cases msg)
     (simp_all add: join_room_no_empty disconnect_no_empty change_language_no_empty)

lemma leave_room_last:
  assumes "Map_get rs (roomId session) = Some room" and "Map_keys (users room) = [sid]"
  shows "Map_get (fst (leave_room sid session rs)) (roomId session) = None"
proof -
  from assms(2) have "Map_delete (users room) sid = []"
    by (cases "users room") (auto simp: Map_keys_def Map_delete_def)
  with assms(1) show ?thesis
    by (simp add: leave_room_def Let_def Map_size_def Map_get_def Map_delete_def
        AList.delete_conv')
qed


lemma update_after_delete:
  "AList.update k v (AList.delete k al) = AList.delete k al @ [(k, v)]"
  by (rule update_absent) (rule AList.delete_notin_dom)

lemma leave_room_same:
  assumes "Map_get rs (roomId prev) = Some room"
  shows "leave_room sid prev rs =
           (if Map_delete (users room) sid = [] then Map_delete rs (roomId prev)
            else Map_set rs (roomId prev) (room\<lparr>users := Map_delete (users room) sid\<rparr>),
            [Emit (Others (roomId prev) sid) (UserLeft (userName prev) sid)])"
  using assms by (simp add: leave_room_def Let_def Map_size_def)

lemma rejoin_room:
  assumes "Map_get (userSessions s) sid = Some prev" and "roomId prev = rid"
    and "Map_get (rooms s) rid = Some room"
  shows "Map_get (rooms (fst (join_room now sid rid uname ulang s))) rid =
           Some ((if Map_delete (users room) sid = []
                  then \<lparr>room_id = rid, users = [], createdAt = now\<rparr> else room)
                 \<lparr>users := Map_delete (users room) sid @
                    [(sid, \<lparr>userName = uname, userLanguage = ulang, joinedAt = now\<rparr>)]\<rparr>)"
    and "snd (join_room now sid rid uname ulang s) =
           [Emit (Others rid sid) (UserLeft (userName prev) sid),
            Emit (Self sid)
              (RoomJoined rid
                 (map (\<lambda>(i, info). (i, userName info, userLanguage info))
                    (Map_delete (users room) sid @
                       [(sid, \<lparr>userName = uname, userLanguage = ulang, joinedAt = now\<rparr>)]))),
            Emit (Others rid sid) (UserJoined uname ulang sid)]"
    and "Map_get (userSessions (fst (join_room now sid rid uname ulang s))) sid =
           Some \<lparr>userName = uname, userLanguage = ulang, roomId = rid\<rparr>"
proof -
  from assms(2,3) have r: "Map_get (rooms s) (roomId prev) = Some room" by simp
  note l = leave_room_same [OF r, of sid]
  show "Map_get (rooms (fst (join_room now sid rid uname ulang s))) rid =
           Some ((if Map_delete (users room) sid = []
                  then \<lparr>room_id = rid, users = [], createdAt = now\<rparr> else room)
                 \<lparr>users := Map_delete (users room) sid @
                    [(sid, \<lparr>userName = uname, userLanguage = ulang, joinedAt = now\<rparr>)]\<rparr>)"
    using assms(1,2) l
    by (simp add: join_room_def Let_def Map_get_def Map_set_def Map_delete_def
        AList.update_conv' AList.delete_conv' update_after_delete del: AList.delete_simps)
  show "snd (join_room now sid rid uname ulang s) =
           [Emit (Others rid sid) (UserLeft (userName prev) sid),
            Emit (Self sid)
              (RoomJoined rid
                 (map (\<lambda>(i, info). (i, userName info, userLanguage info))
                    (Map_delete (users room) sid @
                       [(sid, \<lparr>userName = uname, userLanguage = ulang, joinedAt = now\<rparr>)]))),
            Emit (Others rid sid) (UserJoined uname ulang sid)]"
    using assms(1,2) l
    by (simp add: join_room_def Let_def Map_get_def Map_set_def Map_delete_def
        AList.update_conv' AList.delete_conv' update_after_delete del: AList.delete_simps)
  show "Map_get (userSessions (fst (join_room now sid rid uname ulang s))) sid =
           Some \<lparr>userName = uname, userLanguage = ulang, roomId = rid\<rparr>"
    by (simp add: join_room_def Let_def case_prod_beta Map_get_def Map_set_def AList.update_conv')
qed

lemma rejoin_room2:
  assumes "Map_get (userSessions2 s) sid = Some prev" and "roomId prev = rid"
    and "Map_get (activeRooms s) rid = Some room"
  shows "getRoomUsers rid (fst (join_room2 now generated sid rid uname ulang s)) =
           Map_delete room sid @
             [(sid, \<lparr>userName = or_else uname generated, userLanguage = or_else ulang ''en'',
                     joinedAt = now\<rparr>)]"
    and "snd (join_room2 now generated sid rid uname ulang s) =
           [Emit (Others rid sid) (UserJoined2 sid (or_else uname generated) ulang now),
            Emit (Self sid)
              (RoomJoined2 rid
                 (Map_delete room sid @
                    [(sid, \<lparr>userName = or_else uname generated, userLanguage = or_else ulang ''en'',
                            joinedAt = now\<rparr>)])
                 ''Connected to conversation room'')]"
proof -
  show g: "getRoomUsers rid (fst (join_room2 now generated sid rid uname ulang s)) =
           Map_delete room sid @
             [(sid, \<lparr>userName = or_else uname generated, userLanguage = or_else ulang ''en'',
                     joinedAt = now\<rparr>)]"
    using assms
    by (simp add: join_room2_def updateRoomUsers_def getRoomUsers_def Let_def Map_get_def
        Map_set_def Map_delete_def Map_has_def Map_size_def AList.update_conv' AList.delete_conv'
        update_after_delete del: AList.delete_simps)
  show "snd (join_room2 now generated sid rid uname ulang s) =
           [Emit (Others rid sid) (UserJoined2 sid (or_else uname generated) ulang now),
            Emit (Self sid)
              (RoomJoined2 rid
                 (Map_delete room sid @
                    [(sid, \<lparr>userName = or_else uname generated, userLanguage = or_else ulang ''en'',
                            joinedAt = now\<rparr>)])
                 ''Connected to conversation room'')]"
    using g by (simp add: join_room2_def Let_def)
qed


text \<open>
  Claim C9, as stated, on the first server file. Alice re-joins R1, where she is with Bob:
  she is taken out of the member map and put back behind Bob, with a new join date, and
  \<^verbatim>\<open>user-left\<close> is emitted to the room. Alice re-joins R1 where she is alone: the room is
  deleted and created again, its creation date changes from 1 to 5.
\<close>

theorem rejoin_emits_user_left_and_recreates_room:
  "Map_get (userSessions alice_bob) ''alice'' =
     Some \<lparr>userName = ''Alice'', userLanguage = ''en'', roomId = ''R1''\<rparr>
   \<and> api_get_room ''R1'' alice_bob =
       RoomInfo ''R1'' 2 [(''alice'', ''Alice'', ''en'', 1), (''bob'', ''Bob'', ''es'', 2)] 1
   \<and> api_get_room ''R1'' (fst (join_room 5 ''alice'' ''R1'' ''Alicia'' ''fr'' alice_bob)) =
       RoomInfo ''R1'' 2 [(''bob'', ''Bob'', ''es'', 2), (''alice'', ''Alicia'', ''fr'', 5)] 1
   \<and> snd (join_room 5 ''alice'' ''R1'' ''Alicia'' ''fr'' alice_bob) =
       [Emit (Others ''R1'' ''alice'') (UserLeft ''Alice'' ''alice''),
        Emit (Self ''alice'')
          (RoomJoined ''R1'' [(''bob'', ''Bob'', ''es''), (''alice'', ''Alicia'', ''fr'')]),
        Emit (Others ''R1'' ''alice'') (UserJoined ''Alicia'' ''fr'' ''alice'')]
   \<and> api_get_room ''R1'' alice_alone = RoomInfo ''R1'' 1 [(''alice'', ''Alice'', ''en'', 1)] 1
   \<and> api_get_room ''R1'' (fst (join_room 5 ''alice'' ''R1'' ''Alicia'' ''fr'' alice_alone)) =
       RoomInfo ''R1'' 1 [(''alice'', ''Alicia'', ''fr'', 5)] 5"
  by (simp add: alice_bob_eq alice_alone_eq join_room_def leave_room_def api_get_room_def
      Map_get_def Map_set_def Map_delete_def Map_size_def Let_def)

text \<open>
  Claim C9, amended. A connection that joins the room it already occupies is handled as
  on any change of room, by a leave followed by a join. In the first server file the
  member entry is deleted and a new one, with the new name, language and join date, is
  appended behind the remaining members; when no member remains in between, the room is
  deleted and created again with a new creation date; \<^verbatim>\<open>user-left\<close> is emitted to the
  room before \<^verbatim>\<open>room-joined\<close> and \<^verbatim>\<open>user-joined\<close>; the session carries the new name and
  language, and the set of members is the same as before. In the second server file the
  member entry is likewise deleted and appended anew, and the events are \<^verbatim>\<open>user-joined\<close>
  and \<^verbatim>\<open>room-joined\<close> only.
\<close>

theorem rejoin_is_leave_then_join:
  "(Map_get (userSessions s) sid = Some prev \<longrightarrow> roomId prev = rid \<longrightarrow>
    Map_get (rooms s) rid = Some room \<longrightarrow>
      Map_get (rooms (fst (join_room now sid rid uname ulang s))) rid =
        Some ((if Map_delete (users room) sid = []
               then \<lparr>room_id = rid, users = [], createdAt = now\<rparr> else room)
              \<lparr>users := Map_delete (users room) sid @
                 [(sid, \<lparr>userName = uname, userLanguage = ulang, joinedAt = now\<rparr>)]\<rparr>)
      \<and> Map_get (userSessions (fst (join_room now sid rid uname ulang s))) sid =
          Some \<lparr>userName = uname, userLanguage = ulang, roomId = rid\<rparr>
      \<and> snd (join_room now sid rid uname ulang s) =
          [Emit (Others rid sid) (UserLeft (userName prev) sid),
           Emit (Self sid)
             (RoomJoined rid
                (map (\<lambda>(i, info). (i, userName info, userLanguage info))
                   (Map_delete (users room) sid @
                      [(sid, \<lparr>userName = uname, userLanguage = ulang, joinedAt = now\<rparr>)]))),
           Emit (Others rid sid) (UserJoined uname ulang sid)]
      \<and> (Map_has (users room) sid \<longrightarrow>
           set (Map_keys (Map_delete (users room) sid @
                  [(sid, \<lparr>userName = uname, userLanguage = ulang, joinedAt = now\<rparr>)])) =
           set (Map_keys (users room))))
   \<and> (Map_get (userSessions2 s2) sid = Some prev2 \<longrightarrow> roomId prev2 = rid \<longrightarrow>
      Map_get (activeRooms s2) rid = Some room2 \<longrightarrow>
        getRoomUsers rid (fst (join_room2 now generated sid rid uname2 ulang2 s2)) =
          Map_delete room2 sid @
            [(sid, \<lparr>userName = or_else uname2 generated, userLanguage = or_else ulang2 ''en'',
                    joinedAt = now\<rparr>)]
        \<and> snd (join_room2 now generated sid rid uname2 ulang2 s2) =
            [Emit (Others rid sid) (UserJoined2 sid (or_else uname2 generated) ulang2 now),
             Emit (Self sid)
               (RoomJoined2 rid
                  (Map_delete room2 sid @
                     [(sid, \<lparr>userName = or_else uname2 generated,
                             userLanguage = or_else ulang2 ''en'', joinedAt = now\<rparr>)])
                  ''Connected to conversation room'')])"
proof (intro conjI impI)
  assume a: "Map_get (userSessions s) sid = Some prev" "roomId prev = rid"
    "Map_get (rooms s) rid = Some room"
  from rejoin_room [OF a]
  show "Map_get (rooms (fst (join_room now sid rid uname ulang s))) rid =
        Some ((if Map_delete (users room) sid = []
               then \<lparr>room_id = rid, users = [], createdAt = now\<rparr> else room)
              \<lparr>users := Map_delete (users room) sid @
                 [(sid, \<lparr>userName = uname, userLanguage = ulang, joinedAt = now\<rparr>)]\<rparr>)"
    and "Map_get (userSessions (fst (join_room now sid rid uname ulang s))) sid =
          Some \<lparr>userName = uname, userLanguage = ulang, roomId = rid\<rparr>"
    and "snd (join_room now sid rid uname ulang s) =
          [Emit (Others rid sid) (UserLeft (userName prev) sid),
           Emit (Self sid)
             (RoomJoined rid
                (map (\<lambda>(i, info). (i, userName info, userLanguage info))
                   (Map_delete (users room) sid @
                      [(sid, \<lparr>userName = uname, userLanguage = ulang, joinedAt = now\<rparr>)]))),
           Emit (Others rid sid) (UserJoined uname ulang sid)]"
    by blast+
  assume "Map_has (users room) sid"
  then have "sid \<in> fst ` set (users room)" by (simp add: Map_has_def map_of_eq_None_iff)
  then show "set (Map_keys (Map_delete (users room) sid @
                  [(sid, \<lparr>userName = uname, userLanguage = ulang, joinedAt = now\<rparr>)])) =
           set (Map_keys (users room))"
    by (auto simp: Map_keys_def Map_delete_def AList.delete_keys)
next
  assume b: "Map_get (userSessions2 s2) sid = Some prev2" "roomId prev2 = rid"
    "Map_get (activeRooms s2) rid = Some room2"
  from rejoin_room2 [OF b]
  show "getRoomUsers rid (fst (join_room2 now generated sid rid uname2 ulang2 s2)) =
          Map_delete room2 sid @
            [(sid, \<lparr>userName = or_else uname2 generated, userLanguage = or_else ulang2 ''en'',
                    joinedAt = now\<rparr>)]"
    and "snd (join_room2 now generated sid rid uname2 ulang2 s2) =
            [Emit (Others rid sid) (UserJoined2 sid (or_else uname2 generated) ulang2 now),
             Emit (Self sid)
               (RoomJoined2 rid
                  (Map_delete room2 sid @
                     [(sid, \<lparr>userName = or_else uname2 generated,
                             userLanguage = or_else ulang2 ''en'', joinedAt = now\<rparr>)])
                  ''Connected to conversation room'')]"
    by blast+
qed

text \<open>
  The amended claim C9 for Alice re-joining R1, where she is with Bob, in either server file.
\<close>

theorem rejoin_is_leave_then_join_witness:
  "Map_get (userSessions alice_bob) ''alice'' =
     Some \<lparr>userName = ''Alice'', userLanguage = ''en'', roomId = ''R1''\<rparr>
   \<and> Map_has (users (snd (hd (rooms alice_bob)))) ''alice''
   \<and> Map_keys (users (snd (hd (rooms alice_bob)))) = [''alice'', ''bob'']
   \<and> map_option (\<lambda>r. Map_keys (users r))
        (Map_get (rooms (fst (join_room 5 ''alice'' ''R1'' ''Alicia'' ''fr'' alice_bob))) ''R1'') =
       Some [''bob'', ''alice'']
   \<and> events_to ''R1'' (snd (join_room 5 ''alice'' ''R1'' ''Alicia'' ''fr'' alice_bob)) =
       [UserLeft ''Alice'' ''alice'', UserJoined ''Alicia'' ''fr'' ''alice'']
   \<and> Map_get (userSessions2 alice_bob2) ''alice'' =
       Some \<lparr>userName = ''Alice'', userLanguage = ''en'', roomId = ''R1'', sessionJoinedAt = 1\<rparr>
   \<and> Map_keys (getRoomUsers ''R1'' alice_bob2) = [''alice'', ''bob'']
   \<and> Map_keys (getRoomUsers ''R1''
        (fst (join_room2 5 ''User7'' ''alice'' ''R1'' (Some ''Alicia'') None alice_bob2))) =
       [''bob'', ''alice'']"
  using rejoin_is_leave_then_join
    [of alice_bob "''alice''" "\<lparr>userName = ''Alice'', userLanguage = ''en'', roomId = ''R1''\<rparr>"
        "''R1''" "snd (hd (rooms alice_bob))" 5 "''Alicia''" "''fr''"
        alice_bob2
        "\<lparr>userName = ''Alice'', userLanguage = ''en'', roomId = ''R1'', sessionJoinedAt = 1\<rparr>"
        "snd (hd (activeRooms alice_bob2))" "''User7''" "Some ''Alicia''" None]
  by (simp add: alice_bob_eq alice_bob2_eq Map_get_def Map_has_def Map_keys_def Map_delete_def
      getRoomUsers_def)

section \<open>Where the cache is consulted\<close>

text \<open>
  Claim C1, as stated, on the first server file. Alice (en) and Bob (es) share a room and
  the services answer. Alice says \<^verbatim>\<open>Hello\<close>: the relay calls LibreTranslate and emits the
  translation to Bob; the handler leaves the server's state as it was, nothing is stored.
  Alice says \<^verbatim>\<open>Hello\<close> again: the relay calls LibreTranslate again, where the claim has a
  cache hit and no provider call.
\<close>

theorem live_speech_calls_provider_again:
  "fst (handle hola_world 5 ''alice'' (LiveSpeech ''Hello'' ''en'') alice_bob) = alice_bob
   \<and> snd (handle hola_world 5 ''alice'' (LiveSpeech ''Hello'' ''en'') alice_bob) =
       [Invoke LibreTranslate ''Hello'' ''en'' ''es'',
        Emit (To ''bob'')
          (LiveTranslation
             \<lparr>originalText = ''Hello'', translatedText = ''Hola'', speakerName = ''Alice'',
              sourceLanguage = ''en'', targetLanguage = ''es'', timestamp = 7, error = None\<rparr>)]
   \<and> invocations
        (snd (handle hola_world 6 ''alice'' (LiveSpeech ''Hello'' ''en'')
                (fst (handle hola_world 5 ''alice'' (LiveSpeech ''Hello'' ''en'') alice_bob)))) =
       [(LibreTranslate, ''Hello'', ''en'', ''es'')]"
  by (simp add: alice_bob_eq eval_defs)

text \<open>
  Claim C1, amended. The relay of the server has no cache: the \<^verbatim>\<open>live-speech\<close> handler
  changes no state, and for every member of the sender's room, other than the sender,
  whose language differs from the source language it calls the provider chain, starting
  with LibreTranslate, on every utterance. The lookup comes first in the browser's
  \<^verbatim>\<open>translateSingle\<close>: on a hit for the key of (text, source language, target language)
  it returns the texts of the cached entry and sends no request (the entry's hit count
  and access time are updated; a placeholder of the preload has no such texts and the
  answer carries none); on a miss it sends one request to \<^verbatim>\<open>/api/translate\<close>, and when the
  answer reports success it stores the answer's translation under that key before it
  returns the answer; when the answer reports no success, or the request throws, the
  cache keeps its entries.
\<close>

theorem cache_is_in_translateSingle_not_in_relay:
  "fst (handle w now sid (LiveSpeech text src) s) = s
   \<and> (Map_get (userSessions s) sid = Some session \<longrightarrow>
      Map_get (rooms s) (roomId session) = Some room \<longrightarrow>
      (u, info) \<in> set (users room) \<longrightarrow> u \<noteq> sid \<longrightarrow> userLanguage info \<noteq> src \<longrightarrow>
        take 1 (invocations (relay w sid session text src (u, info))) =
          [(LibreTranslate, text, src, userLanguage info)]
        \<and> (LibreTranslate, text, src, userLanguage info)
             \<in> set (invocations (snd (handle w now sid (LiveSpeech text src) s))))
   \<and> (Map_get (translationCache st)
         (cacheKey (req_text r) (req_sourceLang r) (req_targetLang r)) = Some (Stored c) \<longrightarrow>
        translateSingle t0 t1 fetch r st =
          (Inr (FromCache (Some (e_originalText c)) (Some (e_translatedText c))),
           st\<lparr>translationCache :=
                Map_set (translationCache st)
                  (cacheKey (req_text r) (req_sourceLang r) (req_targetLang r))
                  (Stored (c\<lparr>e_hitCount := e_hitCount c + 1, e_lastAccessed := Some t0\<rparr>))\<rparr>,
           []))
   \<and> (Map_get (translationCache st)
         (cacheKey (req_text r) (req_sourceLang r) (req_targetLang r)) = Some (Placeholder p) \<longrightarrow>
        translateSingle t0 t1 fetch r st =
          (Inr (FromCache None None),
           st\<lparr>translationCache :=
                Map_set (translationCache st)
                  (cacheKey (req_text r) (req_sourceLang r) (req_targetLang r))
                  (Placeholder (p\<lparr>p_hitCountNaN := True, p_lastAccessed := Some t0\<rparr>))\<rparr>,
           []))
   \<and> (Map_get (translationCache st)
         (cacheKey (req_text r) (req_sourceLang r) (req_targetLang r)) = None \<longrightarrow>
        snd (snd (translateSingle t0 t1 fetch r st)) = [r]
        \<and> (\<forall>result. fetch r = Json result \<longrightarrow>
             fst (translateSingle t0 t1 fetch r st) = Inr (FromServer result)
             \<and> (res_success result \<longrightarrow>
                  Map_get (translationCache (fst (snd (translateSingle t0 t1 fetch r st))))
                    (cacheKey (req_text r) (req_sourceLang r) (req_targetLang r)) =
                  Some (Stored \<lparr>e_originalText = req_text r, e_translatedText = res_translatedText result,
                        e_sourceLang = req_sourceLang r, e_targetLang = req_targetLang r,
                        e_timestamp = t1, e_hitCount = 0, e_lastAccessed = None\<rparr>))
             \<and> (\<not> res_success result \<longrightarrow>
                  translationCache (fst (snd (translateSingle t0 t1 fetch r st))) =
                    translationCache st))
        \<and> (\<forall>msg. fetch r = FetchThrows msg \<longrightarrow>
             fst (translateSingle t0 t1 fetch r st) = Inl (''Translation failed: '' @ msg)
             \<and> translationCache (fst (snd (translateSingle t0 t1 fetch r st))) =
                 translationCache st))"
proof (intro conjI impI allI)
  show "fst (handle w now sid (LiveSpeech text src) s) = s" by simp
next
  assume a: "Map_get (userSessions s) sid = Some session"
    "Map_get (rooms s) (roomId session) = Some room"
    "(u, info) \<in> set (users room)" "u \<noteq> sid" "userLanguage info \<noteq> src"
  from relay_first_invocation [OF a(4,5)]
  show f: "take 1 (invocations (relay w sid session text src (u, info))) =
          [(LibreTranslate, text, src, userLanguage info)]" .
  then have "(LibreTranslate, text, src, userLanguage info)
      \<in> set (invocations (relay w sid session text src (u, info)))"
    by (metis in_set_takeD list.set_intros(1))
  with a(1,2,3)
  show "(LibreTranslate, text, src, userLanguage info)
             \<in> set (invocations (snd (handle w now sid (LiveSpeech text src) s)))"
    by (auto simp: live_speech_def invocations_concat)
next
  assume "Map_get (translationCache st)
         (cacheKey (req_text r) (req_sourceLang r) (req_targetLang r)) = Some (Stored c)"
  then show "translateSingle t0 t1 fetch r st =
          (Inr (FromCache (Some (e_originalText c)) (Some (e_translatedText c))),
           st\<lparr>translationCache :=
                Map_set (translationCache st)
                  (cacheKey (req_text r) (req_sourceLang r) (req_targetLang r))
                  (Stored (c\<lparr>e_hitCount := e_hitCount c + 1, e_lastAccessed := Some t0\<rparr>))\<rparr>,
           [])"
    by (simp add: translateSingle_def getCachedTranslation_def Let_def)
next
  assume "Map_get (translationCache st)
         (cacheKey (req_text r) (req_sourceLang r) (req_targetLang r)) = Some (Placeholder p)"
  then show "translateSingle t0 t1 fetch r st =
          (Inr (FromCache None None),
           st\<lparr>translationCache :=
                Map_set (translationCache st)
                  (cacheKey (req_text r) (req_sourceLang r) (req_targetLang r))
                  (Placeholder (p\<lparr>p_hitCountNaN := True, p_lastAccessed := Some t0\<rparr>))\<rparr>,
           [])"
    by (simp add: translateSingle_def getCachedTranslation_def Let_def)
next
  assume n: "Map_get (translationCache st)
         (cacheKey (req_text r) (req_sourceLang r) (req_targetLang r)) = None"
  then show "snd (snd (translateSingle t0 t1 fetch r st)) = [r]"
    by (simp add: translateSingle_def getCachedTranslation_def Let_def split: fetch_outcome.splits)
  {
    fix result
    assume j: "fetch r = Json result"
    with n show "fst (translateSingle t0 t1 fetch r st) = Inr (FromServer result)"
      by (simp add: translateSingle_def getCachedTranslation_def Let_def)
    {
      assume "res_success result"
      with n j show "Map_get (translationCache (fst (snd (translateSingle t0 t1 fetch r st))))
                    (cacheKey (req_text r) (req_sourceLang r) (req_targetLang r)) =
                  Some (Stored \<lparr>e_originalText = req_text r, e_translatedText = res_translatedText result,
                        e_sourceLang = req_sourceLang r, e_targetLang = req_targetLang r,
                        e_timestamp = t1, e_hitCount = 0, e_lastAccessed = None\<rparr>)"
        by (simp add: translateSingle_def getCachedTranslation_def cacheTranslation_def Let_def
            Map_get_def Map_set_def AList.update_conv')
    }
    {
      assume "\<not> res_success result"
      with n j show "translationCache (fst (snd (translateSingle t0 t1 fetch r st))) =
                    translationCache st"
        by (simp add: translateSingle_def getCachedTranslation_def Let_def)
    }
  }
  {
    fix msg
    assume "fetch r = FetchThrows msg"
    with n show "fst (translateSingle t0 t1 fetch r st) = Inl (''Translation failed: '' @ msg)"
      and "translationCache (fst (snd (translateSingle t0 t1 fetch r st))) = translationCache st"
      by (simp_all add: translateSingle_def getCachedTranslation_def Let_def)
  }
qed


lemma tiny_after_hello:
  "translationCache (fst (snd (translateSingle 10 20 hola_fetch hello_request tiny_optimizer))) =
     [(''Hello_en_es'',
       Stored \<lparr>e_originalText = ''Hello'', e_translatedText = ''Hola'', e_sourceLang = ''en'',
               e_targetLang = ''es'', e_timestamp = 20, e_hitCount = 0, e_lastAccessed = None\<rparr>)]"
  by (simp add: translateSingle_def getCachedTranslation_def cacheTranslation_def tiny_simps
      hello_request_def hola_fetch_def cacheKey_def Map_get_def Map_set_def Map_size_def Let_def)

text \<open>
  The amended claim C1: the relay for Alice and Bob calls LibreTranslate; the browser's
  first request for \<^verbatim>\<open>Hello\<close> misses and is sent, the second is answered from the cache
  and nothing is sent; and when the preload timer for \<^verbatim>\<open>Hello\<close> has fired instead, the
  request hits the placeholder, is answered without texts, and nothing is sent.
\<close>

theorem cache_is_in_translateSingle_not_in_relay_witness:
  "Map_get (userSessions alice_bob) ''alice'' =
     Some \<lparr>userName = ''Alice'', userLanguage = ''en'', roomId = ''R1''\<rparr>
   \<and> (''bob'', \<lparr>userName = ''Bob'', userLanguage = ''es'', joinedAt = 2\<rparr>)
        \<in> set (users (snd (hd (rooms alice_bob))))
   \<and> (LibreTranslate, ''Hello'', ''en'', ''es'')
        \<in> set (invocations (snd (handle hola_world 5 ''alice'' (LiveSpeech ''Hello'' ''en'') alice_bob)))
   \<and> Map_get (translationCache tiny_optimizer) (cacheKey ''Hello'' ''en'' ''es'') = None
   \<and> hola_fetch hello_request = Json \<lparr>res_success = True, res_translatedText = ''Hola''\<rparr>
   \<and> snd (snd (translateSingle 10 20 hola_fetch hello_request tiny_optimizer)) = [hello_request]
   \<and> fst (translateSingle 30 40 hola_fetch hello_request
             (fst (snd (translateSingle 10 20 hola_fetch hello_request tiny_optimizer)))) =
        Inr (FromCache (Some ''Hello'') (Some ''Hola''))
   \<and> snd (snd (translateSingle 30 40 hola_fetch hello_request
             (fst (snd (translateSingle 10 20 hola_fetch hello_request tiny_optimizer))))) = []
   \<and> Map_get (translationCache (preloadTimer 50 ''Hello'' ''en'' ''es'' tiny_optimizer))
        (cacheKey ''Hello'' ''en'' ''es'') =
        Some (Placeholder \<lparr>p_text = ''Hello'', p_translation = ''[es] Hello'', p_timestamp = 50,
                            p_hitCountNaN = False, p_lastAccessed = None\<rparr>)
   \<and> fst (translateSingle 60 70 hola_fetch hello_request
             (preloadTimer 50 ''Hello'' ''en'' ''es'' tiny_optimizer)) = Inr (FromCache None None)
   \<and> snd (snd (translateSingle 60 70 hola_fetch hello_request
             (preloadTimer 50 ''Hello'' ''en'' ''es'' tiny_optimizer))) = []"
  using cache_is_in_translateSingle_not_in_relay
    [of hola_world 5 "''alice''" "''Hello''" "''en''" alice_bob
        "\<lparr>userName = ''Alice'', userLanguage = ''en'', roomId = ''R1''\<rparr>"
        "snd (hd (rooms alice_bob))" "''bob''"
        "\<lparr>userName = ''Bob'', userLanguage = ''es'', joinedAt = 2\<rparr>"
        tiny_optimizer hello_request
        "\<lparr>e_originalText = ''Hello'', e_translatedText = ''Hola'', e_sourceLang = ''en'',
           e_targetLang = ''es'', e_timestamp = 20, e_hitCount = 0, e_lastAccessed = None\<rparr>"
        10 20 hola_fetch]
    cache_is_in_translateSingle_not_in_relay
    [of hola_world 5 "''alice''" "''Hello''" "''en''" alice_bob
        "\<lparr>userName = ''Alice'', userLanguage = ''en'', roomId = ''R1''\<rparr>"
        "snd (hd (rooms alice_bob))" "''bob''"
        "\<lparr>userName = ''Bob'', userLanguage = ''es'', joinedAt = 2\<rparr>"
        "fst (snd (translateSingle 10 20 hola_fetch hello_request tiny_optimizer))" hello_request
        "\<lparr>e_originalText = ''Hello'', e_translatedText = ''Hola'', e_sourceLang = ''en'',
           e_targetLang = ''es'', e_timestamp = 20, e_hitCount = 0, e_lastAccessed = None\<rparr>"
        30 40 hola_fetch]
    cache_is_in_translateSingle_not_in_relay
    [of hola_world 5 "''alice''" "''Hello''" "''en''" alice_bob
        "\<lparr>userName = ''Alice'', userLanguage = ''en'', roomId = ''R1''\<rparr>"
        "snd (hd (rooms alice_bob))" "''bob''"
        "\<lparr>userName = ''Bob'', userLanguage = ''es'', joinedAt = 2\<rparr>"
        "preloadTimer 50 ''Hello'' ''en'' ''es'' tiny_optimizer" hello_request _ 60 70 hola_fetch
        "\<lparr>p_text = ''Hello'', p_translation = ''[es] Hello'', p_timestamp = 50,
           p_hitCountNaN = False, p_lastAccessed = None\<rparr>"]
  by (simp add: alice_bob_eq tiny_after_hello tiny_simps preloadTimer_def hello_request_def
      hola_fetch_def cacheKey_def Map_get_def Map_set_def)

section \<open>The tables stay maps\<close>

text \<open>
  The properties of the relay and of the cache assume that the member table of the room,
  or the cache, has unique keys (\<open>is_Map\<close>). This holds of every state that the
  program reaches: the empty tables are maps, and every handler, route and cache
  operation keeps them so.
\<close>

lemma is_Map_set: "is_Map m \<Longrightarrow> is_Map (Map_set m k v)"
  by (simp add: is_Map_def Map_set_def AList.distinct_update)

lemma is_Map_delete: "is_Map m \<Longrightarrow> is_Map (Map_delete m k)"
  by (simp add: is_Map_def Map_delete_def AList.distinct_delete)

lemma is_Map_filter: "is_Map m \<Longrightarrow> is_Map (filter P m)"
  by (simp add: is_Map_def distinct_map_filter)

lemma all_set: "list_all P m \<Longrightarrow> P (k, v) \<Longrightarrow> list_all P (Map_set m k v)"
  using set_update_subset [of k v m] by (auto simp: list_all_iff Map_set_def)

lemma all_delete: "list_all P m \<Longrightarrow> list_all P (Map_delete m k)"
  using set_delete_subset [of k m] by (auto simp: list_all_iff Map_delete_def)

lemma all_get: "list_all P m \<Longrightarrow> Map_get m k = Some v \<Longrightarrow> P (k, v)"
  by (auto simp: list_all_iff Map_get_def dest: map_of_SomeD)

lemma wf_server_users:
  "wf_server s \<Longrightarrow> Map_get (rooms s) rid = Some room \<Longrightarrow> is_Map (users room)"
  using all_get [of "\<lambda>(rid, room). is_Map (users room)" "rooms s" rid room]
  by (simp add: wf_server_def)

lemma leave_room_wf:
  assumes "is_Map rs" and "list_all (\<lambda>(rid, room). is_Map (users room)) rs"
  shows "is_Map (fst (leave_room sid session rs)) \<and>
         list_all (\<lambda>(rid, room). is_Map (users room)) (fst (leave_room sid session rs))"
proof (cases "Map_get rs (roomId session)")
  case None
  with assms show ?thesis by (simp add: leave_room_def)
next
  case (Some room)
  from all_get [OF assms(2) Some] have "is_Map (users room)" by simp
  then have "is_Map (Map_delete (users room) sid)" by (rule is_Map_delete)
  with Some assms show ?thesis
    by (simp add: leave_room_def Let_def is_Map_set is_Map_delete all_set all_delete)
qed

lemma join_room_wf:
  assumes "wf_server s"
  shows "wf_server (fst (join_room now sid rid uname ulang s))"
proof -
  define rooms1 where "rooms1 = (case Map_get (userSessions s) sid of
      None \<Rightarrow> rooms s | Some prevSession \<Rightarrow> fst (leave_room sid prevSession (rooms s)))"
  from assms have r1: "is_Map rooms1 \<and> list_all (\<lambda>(rid, room). is_Map (users room)) rooms1"
    using leave_room_wf [of "rooms s" sid]
    by (auto simp: rooms1_def wf_server_def split: option.splits)
  define room where "room = (case Map_get rooms1 rid of Some r \<Rightarrow> r
      | None \<Rightarrow> \<lparr>room_id = rid, users = [], createdAt = now\<rparr>)"
  define room' where "room' = room\<lparr>users := Map_set (users room) sid
      \<lparr>userName = uname, userLanguage = ulang, joinedAt = now\<rparr>\<rparr>"
  have e: "rooms (fst (join_room now sid rid uname ulang s)) = Map_set rooms1 rid room'"
    and u: "userSessions (fst (join_room now sid rid uname ulang s)) =
              Map_set (userSessions s) sid \<lparr>userName = uname, userLanguage = ulang, roomId = rid\<rparr>"
    by (simp_all add: join_room_def rooms1_def room_def room'_def Let_def
        split: option.splits prod.splits)
  have "is_Map (users room)"
  proof (cases "Map_get rooms1 rid")
    case None
    then show ?thesis by (simp add: room_def is_Map_def)
  next
    case (Some r)
    with r1 all_get [of "\<lambda>(rid, room). is_Map (users room)" rooms1 rid r] show ?thesis
      by (simp add: room_def)
  qed
  then have "is_Map (users room')" by (simp add: room'_def is_Map_set)
  with r1 assms show ?thesis
    by (simp add: wf_server_def e u is_Map_set all_set)
qed

lemma disconnect_wf:
  assumes "wf_server s"
  shows "wf_server (fst (disconnect sid s))"
proof (cases "Map_get (userSessions s) sid")
  case None
  with assms show ?thesis by (simp add: disconnect_def)
next
  case (Some session)
  then have "rooms (fst (disconnect sid s)) = fst (leave_room sid session (rooms s))"
    and "userSessions (fst (disconnect sid s)) = Map_delete (userSessions s) sid"
    by (simp_all add: disconnect_def split: prod.splits)
  with assms leave_room_wf [of "rooms s" sid session] show ?thesis
    by (simp add: wf_server_def is_Map_delete)
qed

lemma change_language_wf:
  assumes "wf_server s"
  shows "wf_server (fst (change_language sid language s))"
proof (cases "Map_get (userSessions s) sid")
  case None
  with assms show ?thesis by (simp add: change_language_def)
next
  case (Some session)
  note s = this
  show ?thesis
  proof (cases "Map_get (rooms s) (roomId session)")
    case None
    with s assms show ?thesis
      by (simp add: change_language_def Let_def wf_server_def is_Map_set)
  next
    case (Some room)
    note r = this
    from wf_server_users [OF assms r] have m: "is_Map (users room)" .
    show ?thesis
    proof (cases "Map_get (users room) sid")
      case None
      with s r assms show ?thesis
        by (simp add: change_language_def Let_def wf_server_def is_Map_set)
    next
      case (Some info)
      with s r assms m show ?thesis
        by (simp add: change_language_def Let_def wf_server_def is_Map_set all_set)
    qed
  qed
qed

lemma handle_wf: "wf_server s \<Longrightarrow> wf_server (fst (handle w now sid msg s))"
  by (cases msg) (simp_all add: join_room_wf disconnect_wf change_language_wf)

lemma api_post_room_wf:
  assumes "wf_server s"
  shows "wf_server (fst (api_post_room uuid now s))"
proof -
  have "list_all (\<lambda>(rid, room). is_Map (users room))
          (Map_set (rooms s) rid \<lparr>room_id = rid, users = [], createdAt = now\<rparr>)" for rid
    using assms by (intro all_set) (simp_all add: wf_server_def is_Map_def)
  with assms show ?thesis
    by (simp add: api_post_room_def Let_def wf_server_def is_Map_set)
qed

lemma init_server_wf: "wf_server init_server"
  by (simp add: wf_server_def init_server_def is_Map_def)

lemma updateRoomUsers_wf:
  assumes "wf_server2 s"
  shows "wf_server2 (updateRoomUsers rid userId action s)"
proof -
  define rooms1 where "rooms1 = (if \<not> Map_has (activeRooms s) rid then Map_set (activeRooms s) rid []
                    else activeRooms s)"
  define room where "room = (case Map_get rooms1 rid of Some r \<Rightarrow> r | None \<Rightarrow> [])"
  from assms have r1: "is_Map rooms1" "list_all (\<lambda>(rid, room). is_Map room) rooms1"
    by (auto simp: rooms1_def wf_server2_def is_Map_set intro!: all_set) (simp add: is_Map_def)
  have m: "is_Map room"
  proof (cases "Map_get rooms1 rid")
    case None
    then show ?thesis by (simp add: room_def is_Map_def)
  next
    case (Some r)
    with all_get [OF r1(2) Some] show ?thesis by (simp add: room_def)
  qed
  have "updateRoomUsers rid userId action s =
     (if action = ''join'' then
           (case Map_get (userSessions2 s) userId of
              Some userSession \<Rightarrow>
                s\<lparr>activeRooms := Map_set rooms1 rid
                     (Map_set room userId
                        \<lparr>userName = userName userSession,
                         userLanguage = userLanguage userSession,
                         joinedAt = sessionJoinedAt userSession\<rparr>)\<rparr>
            | None \<Rightarrow> s\<lparr>activeRooms := rooms1\<rparr>)
         else if action = ''leave'' then
           (let room' = Map_delete room userId
            in if Map_size room' = 0 then s\<lparr>activeRooms := Map_delete rooms1 rid\<rparr>
               else s\<lparr>activeRooms := Map_set rooms1 rid room'\<rparr>)
         else s\<lparr>activeRooms := rooms1\<rparr>)"
    by (simp only: updateRoomUsers_def rooms1_def room_def Let_def)
  with r1 m assms show ?thesis
    by (auto simp: wf_server2_def Let_def is_Map_set is_Map_delete all_set all_delete
        split: option.splits)
qed

lemma join_room2_wf:
  assumes "wf_server2 s"
  shows "wf_server2 (fst (join_room2 now generated sid rid uname ulang s))"
proof -
  define s1 where "s1 = (case Map_get (userSessions2 s) sid of
                  Some old \<Rightarrow> updateRoomUsers (roomId old) sid ''leave'' s
                | None \<Rightarrow> s)"
  from assms have "wf_server2 s1"
    by (simp add: s1_def updateRoomUsers_wf split: option.splits)
  then have "wf_server2 (s1\<lparr>userSessions2 := Map_set (userSessions2 s1) sid v\<rparr>)" for v
    by (simp add: wf_server2_def is_Map_set)
  then show ?thesis
    by (simp add: join_room2_def Let_def s1_def [symmetric] updateRoomUsers_wf)
qed

lemma wf_server2_users: "wf_server2 s \<Longrightarrow> is_Map (getRoomUsers rid s)"
proof (cases "Map_get (activeRooms s) rid")
  case None
  then show ?thesis by (simp add: getRoomUsers_def is_Map_def)
next
  case (Some r)
  assume "wf_server2 s"
  with all_get [of "\<lambda>(rid, room). is_Map room" "activeRooms s" rid r] Some show ?thesis
    by (simp add: getRoomUsers_def wf_server2_def)
qed

lemma init_server2_wf: "wf_server2 init_server2"
  by (simp add: wf_server2_def init_server2_def is_Map_def)

lemma run_op_is_Map: "is_Map (translationCache st) \<Longrightarrow> is_Map (translationCache (run_op op st))"
proof (cases op)
  case (Store now t tr a b)
  assume "is_Map (translationCache st)"
  with Store show ?thesis
    by (simp add: cacheTranslation_def Let_def is_Map_set is_Map_delete split: option.splits)
next
  case (Lookup now t a b)
  assume "is_Map (translationCache st)"
  with Lookup show ?thesis
    by (simp add: getCachedTranslation_def Let_def is_Map_set split: option.splits)
next
  case (Sweep now)
  assume "is_Map (translationCache st)"
  with Sweep show ?thesis by (simp add: cleanupCache_def is_Map_filter)
next
  case (PreloadTimer now phrase "from" to)
  assume "is_Map (translationCache st)"
  with PreloadTimer show ?thesis by (simp add: preloadTimer_def is_Map_set)
qed

lemma run_ops_is_Map: "is_Map (translationCache st) \<Longrightarrow> is_Map (translationCache (run_ops ops st))"
  by (induction ops arbitrary: st) (simp_all add: run_op_is_Map)

section \<open>Rooms with members stay registered\<close>

text \<open>
  In the first server file a connection is a member of the room that its session names.
  Every handler keeps that room in the registry, with the connection in its member
  table.
\<close>

lemma registered_one:
  "(case Map_get rs r of None \<Rightarrow> False | Some room \<Rightarrow> Map_has (users room) k) \<longleftrightarrow>
     (\<exists>room. map_of rs r = Some room \<and> k \<in> fst ` set (users room))"
proof (cases "map_of rs r")
  case None
  then show ?thesis by (simp add: Map_get_def)
next
  case (Some room)
  have "Map_has (users room) k \<longleftrightarrow> k \<in> fst ` set (users room)"
    by (simp add: Map_has_def map_of_eq_None_iff)
  with Some show ?thesis by (simp add: Map_get_def)
qed

lemma members_registered_iff:
  "members_registered s \<longleftrightarrow>
     (\<forall>(k, sess) \<in> set (userSessions s).
        \<exists>room. map_of (rooms s) (roomId sess) = Some room \<and> k \<in> fst ` set (users room))"
  by (simp add: members_registered_def list_all_iff registered_one case_prod_beta)

lemma members_registeredD:
  assumes "members_registered s" and "(k, sess) \<in> set (userSessions s)"
  shows "\<exists>room. map_of (rooms s) (roomId sess) = Some room \<and> k \<in> fst ` set (users room)"
proof -
  from assms(1) have "\<forall>x \<in> set (userSessions s).
      \<exists>room. map_of (rooms s) (roomId (snd x)) = Some room \<and> fst x \<in> fst ` set (users room)"
    by (simp add: members_registered_iff case_prod_beta)
  from bspec [OF this assms(2)] show ?thesis by simp
qed

lemma in_update_cases:
  assumes "distinct (map fst al)" and "(k, v) \<in> set (AList.update k' v' al)"
  shows "(k = k' \<and> v = v') \<or> (k \<noteq> k' \<and> (k, v) \<in> set al)"
  using assms
proof (induction al)
  case Nil
  then show ?case by simp
next
  case (Cons p al)
  then show ?case by (cases p) (force simp: image_iff split: if_splits)
qed

lemma in_delete_cases:
  "(k, v) \<in> set (AList.delete k' al) \<Longrightarrow> k \<noteq> k' \<and> (k, v) \<in> set al"
  by (induction al) (auto split: if_splits)

lemma leave_room_keeps_member:
  assumes "k \<noteq> sid" and "map_of rs r = Some R" and "k \<in> fst ` set (users R)"
  shows "\<exists>R1. map_of (fst (leave_room sid prev rs)) r = Some R1 \<and> k \<in> fst ` set (users R1)"
proof (cases "map_of rs (roomId prev)")
  case None
  with assms show ?thesis by (simp add: leave_room_def Map_get_def)
next
  case (Some room)
  show ?thesis
  proof (cases "r = roomId prev")
    case False
    with Some assms show ?thesis
      by (simp add: leave_room_def Map_get_def Let_def Map_set_def Map_delete_def
          AList.update_conv' AList.delete_conv')
  next
    case True
    with Some assms(2) have e: "room = R" by simp
    have "fst ` set (AList.delete sid (users R)) = fst ` set (users R) - {sid}"
      using AList.delete_keys [of sid "users R"] by (metis list.set_map set_removeAll)
    with assms(1,3) have m: "k \<in> fst ` set (AList.delete sid (users R))" by simp
    then have "AList.delete sid (users R) \<noteq> []" by auto
    with Some True e m show ?thesis
      by (simp add: leave_room_def Map_get_def Let_def Map_set_def Map_delete_def Map_size_def
          AList.update_conv' del: AList.delete_simps)
  qed
qed


lemma join_room_members_registered:
  assumes w: "wf_server s" and m: "members_registered s"
  shows "members_registered (fst (join_room now sid rid uname ulang s))"
proof -
  define rooms1 where "rooms1 = (case Map_get (userSessions s) sid of
      None \<Rightarrow> rooms s | Some prevSession \<Rightarrow> fst (leave_room sid prevSession (rooms s)))"
  define room where "room = (case Map_get rooms1 rid of Some r \<Rightarrow> r
      | None \<Rightarrow> \<lparr>room_id = rid, users = [], createdAt = now\<rparr>)"
  define info where "info = \<lparr>userName = uname, userLanguage = ulang, joinedAt = now\<rparr>"
  define room' where "room' = room\<lparr>users := Map_set (users room) sid info\<rparr>"
  define sess' where "sess' = \<lparr>userName = uname, userLanguage = ulang, roomId = rid\<rparr>"
  have e: "rooms (fst (join_room now sid rid uname ulang s)) = Map_set rooms1 rid room'"
    and u: "userSessions (fst (join_room now sid rid uname ulang s)) =
              Map_set (userSessions s) sid sess'"
    by (simp_all add: join_room_def rooms1_def room_def room'_def info_def sess'_def Let_def
        split: option.splits prod.splits)
  have keep1: "\<exists>R1. map_of rooms1 r = Some R1 \<and> k \<in> fst ` set (users R1)"
    if "k \<noteq> sid" "map_of (rooms s) r = Some R" "k \<in> fst ` set (users R)" for k r R
    using that leave_room_keeps_member [OF that]
    by (auto simp: rooms1_def split: option.splits)
  have keep2: "\<exists>R2. map_of (Map_set rooms1 rid room') r = Some R2 \<and> k \<in> fst ` set (users R2)"
    if "map_of rooms1 r = Some R1" "k \<in> fst ` set (users R1)" for k r R1
  proof (cases "r = rid")
    case False
    with that show ?thesis by (simp add: Map_set_def AList.update_conv')
  next
    case True
    with that have "room = R1" by (simp add: room_def Map_get_def)
    with that(2) have "k \<in> fst ` set (users room')"
      by (simp add: room'_def Map_set_def AList.dom_update)
    with True show ?thesis by (simp add: Map_set_def AList.update_conv')
  qed
  have own: "\<exists>R2. map_of (Map_set rooms1 rid room') rid = Some R2 \<and> sid \<in> fst ` set (users R2)"
    by (simp add: Map_set_def AList.update_conv' room'_def AList.dom_update)
  show ?thesis
    unfolding members_registered_iff e u
  proof (clarify)
    fix k sess
    assume "(k, sess) \<in> set (Map_set (userSessions s) sid sess')"
    with w in_update_cases [of "userSessions s" k sess sid sess']
    have "(k = sid \<and> sess = sess') \<or> (k \<noteq> sid \<and> (k, sess) \<in> set (userSessions s))"
      by (simp add: wf_server_def is_Map_def Map_set_def)
    then show "\<exists>room. map_of (Map_set rooms1 rid room') (roomId sess) = Some room \<and>
        k \<in> fst ` set (users room)"
    proof
      assume "k = sid \<and> sess = sess'"
      with own show ?thesis by (simp add: sess'_def)
    next
      assume a: "k \<noteq> sid \<and> (k, sess) \<in> set (userSessions s)"
      then have "(k, sess) \<in> set (userSessions s)" by simp
      from members_registeredD [OF m this]
      obtain R where "map_of (rooms s) (roomId sess) = Some R" "k \<in> fst ` set (users R)"
        by blast
      with a keep1 obtain R1 where "map_of rooms1 (roomId sess) = Some R1" "k \<in> fst ` set (users R1)"
        by blast
      with keep2 show ?thesis by blast
    qed
  qed
qed

lemma disconnect_members_registered:
  assumes m: "members_registered s"
  shows "members_registered (fst (disconnect sid s))"
proof (cases "Map_get (userSessions s) sid")
  case None
  with m show ?thesis by (simp add: disconnect_def)
next
  case (Some session)
  then have e: "rooms (fst (disconnect sid s)) = fst (leave_room sid session (rooms s))"
    and u: "userSessions (fst (disconnect sid s)) = Map_delete (userSessions s) sid"
    by (simp_all add: disconnect_def split: prod.splits)
  show ?thesis
    unfolding members_registered_iff e u
  proof (clarify)
    fix k sess
    assume "(k, sess) \<in> set (Map_delete (userSessions s) sid)"
    with in_delete_cases [of k sess sid "userSessions s"]
    have a: "k \<noteq> sid" "(k, sess) \<in> set (userSessions s)" by (simp_all add: Map_delete_def)
    from members_registeredD [OF m a(2)]
    obtain R where "map_of (rooms s) (roomId sess) = Some R" "k \<in> fst ` set (users R)"
      by blast
    with a(1) leave_room_keeps_member
    show "\<exists>room. map_of (fst (leave_room sid session (rooms s))) (roomId sess) = Some room \<and>
        k \<in> fst ` set (users room)"
      by blast
  qed
qed


lemma change_language_keeps_member:
  assumes "map_of (rooms s) r = Some R" and "k \<in> fst ` set (users R)"
  shows "\<exists>R'. map_of (rooms (fst (change_language sid language s))) r = Some R' \<and>
           k \<in> fst ` set (users R')"
proof (cases "Map_get (userSessions s) sid")
  case None
  with assms show ?thesis by (simp add: change_language_def)
next
  case (Some session)
  note ss = this
  show ?thesis
  proof (cases "Map_get (rooms s) (roomId session)")
    case None
    with ss assms show ?thesis by (simp add: change_language_def Let_def)
  next
    case (Some room)
    note rr = this
    show ?thesis
    proof (cases "Map_get (users room) sid")
      case None
      with ss rr assms show ?thesis by (simp add: change_language_def Let_def)
    next
      case (Some info)
      show ?thesis
      proof (cases "r = roomId session")
        case False
        with ss rr Some assms show ?thesis
          by (simp add: change_language_def Let_def Map_set_def AList.update_conv')
      next
        case True
        with rr assms(1) have "room = R" by (simp add: Map_get_def)
        with ss rr Some assms True show ?thesis
          by (simp add: change_language_def Let_def Map_set_def AList.update_conv' AList.dom_update)
      qed
    qed
  qed
qed

lemma change_language_sessions:
  "userSessions (fst (change_language sid language s)) =
     (case Map_get (userSessions s) sid of
        None \<Rightarrow> userSessions s
      | Some session \<Rightarrow> Map_set (userSessions s) sid (session\<lparr>userLanguage := language\<rparr>))"
  by (simp add: change_language_def Let_def split: option.splits)

lemma change_language_members_registered:
  assumes w: "wf_server s" and m: "members_registered s"
  shows "members_registered (fst (change_language sid language s))"
  unfolding members_registered_iff
proof (clarify)
  fix k sess
  assume a: "(k, sess) \<in> set (userSessions (fst (change_language sid language s)))"
  have "\<exists>old. (k, old) \<in> set (userSessions s) \<and> roomId old = roomId sess"
  proof (cases "Map_get (userSessions s) sid")
    case None
    with a show ?thesis by (auto simp: change_language_sessions)
  next
    case (Some session)
    with a have "(k, sess) \<in> set (AList.update sid (session\<lparr>userLanguage := language\<rparr>) (userSessions s))"
      by (simp add: change_language_sessions Map_set_def)
    with w in_update_cases [of "userSessions s" k sess sid "session\<lparr>userLanguage := language\<rparr>"]
    have "(k = sid \<and> sess = session\<lparr>userLanguage := language\<rparr>) \<or>
          (k \<noteq> sid \<and> (k, sess) \<in> set (userSessions s))"
      by (simp add: wf_server_def is_Map_def)
    then show ?thesis
    proof
      assume "k = sid \<and> sess = session\<lparr>userLanguage := language\<rparr>"
      moreover from Some have "(sid, session) \<in> set (userSessions s)"
        by (simp add: Map_get_def map_of_SomeD)
      ultimately show ?thesis by auto
    next
      assume "k \<noteq> sid \<and> (k, sess) \<in> set (userSessions s)"
      then show ?thesis by auto
    qed
  qed
  then obtain old where o: "(k, old) \<in> set (userSessions s)" "roomId old = roomId sess" by blast
  from members_registeredD [OF m o(1)] o(2)
  obtain R where "map_of (rooms s) (roomId sess) = Some R" "k \<in> fst ` set (users R)" by auto
  from change_language_keeps_member [OF this]
  show "\<exists>room. map_of (rooms (fst (change_language sid language s))) (roomId sess) = Some room \<and>
        k \<in> fst ` set (users room)" .
qed

lemma handle_members_registered:
  "wf_server s \<Longrightarrow> members_registered s \<Longrightarrow> members_registered (fst (handle w now sid msg s))"
  by (cases msg)
     (simp_all add: join_room_members_registered disconnect_members_registered
        change_language_members_registered)

lemma leave_room_others:
  assumes "Map_get rs (roomId session) = Some room" and "Map_delete (users room) sid \<noteq> []"
  shows "Map_get (fst (leave_room sid session rs)) (roomId session) =
           Some (room\<lparr>users := Map_delete (users room) sid\<rparr>)"
  using assms
  by (simp add: leave_room_def Let_def Map_size_def Map_get_def Map_set_def AList.update_conv')

text \<open>
  Claim C6, as stated, on the first server file with an empty registry: after
  \<^verbatim>\<open>POST /api/room\<close> the registry holds a room without members, and the room-info
  query for it answers with a member count of 0 rather than with \<^verbatim>\<open>Room not found\<close>.
\<close>

theorem api_post_room_registers_empty_room:
  "no_empty_room init_server
   \<and> snd (api_post_room ''3f2a9c1e-7b1d-4c5a-9e2f-1a2b3c4d5e6f'' 9 init_server) = ''3F2A9C1E''
   \<and> \<not> no_empty_room (fst (api_post_room ''3f2a9c1e-7b1d-4c5a-9e2f-1a2b3c4d5e6f'' 9 init_server))
   \<and> api_get_room ''3F2A9C1E''
        (fst (api_post_room ''3f2a9c1e-7b1d-4c5a-9e2f-1a2b3c4d5e6f'' 9 init_server)) =
      RoomInfo ''3F2A9C1E'' 0 [] 9"
  by (simp add: api_post_room_def api_get_room_def init_server_def no_empty_room_def
      toUpperCase_def Map_set_def Map_get_def Map_size_def Let_def)

text \<open>
  Claim C6, amended, for the first server file. The registry starts without rooms and
  without sessions. No message of a connection (\<^verbatim>\<open>join-room\<close>, \<^verbatim>\<open>live-speech\<close>,
  \<^verbatim>\<open>change-language\<close>, \<^verbatim>\<open>disconnect\<close>) leaves a room without members in a registry that
  had none, and after every such message every room that has a member is still
  registered: the room that a session names is in the registry and holds the session's
  connection. When the only member of a room disconnects, or joins another room, the room
  is deleted in the same step, and a room-info query for it then answers
  \<^verbatim>\<open>Room not found\<close>; when other members remain, the room stays registered with the
  remaining members. \<^verbatim>\<open>POST /api/room\<close> however registers a room that has no member: the
  room-info query for it answers with a member count of 0.
\<close>

theorem room_registered_while_inhabited:
  "no_empty_room init_server \<and> wf_server init_server \<and> members_registered init_server
   \<and> (no_empty_room s \<longrightarrow> no_empty_room (fst (handle w now sid msg s)))
   \<and> (wf_server s \<longrightarrow> members_registered s \<longrightarrow>
        wf_server (fst (handle w now sid msg s)) \<and>
        members_registered (fst (handle w now sid msg s)))
   \<and> (Map_get (userSessions s) sid = Some session \<longrightarrow>
      Map_get (rooms s) (roomId session) = Some room \<longrightarrow>
        (Map_keys (users room) = [sid] \<longrightarrow>
           Map_get (rooms (fst (disconnect sid s))) (roomId session) = None
           \<and> api_get_room (roomId session) (fst (disconnect sid s)) = NotFound ''Room not found''
           \<and> (rid \<noteq> roomId session \<longrightarrow>
                api_get_room (roomId session) (fst (join_room now sid rid uname ulang s)) =
                  NotFound ''Room not found''))
        \<and> (Map_delete (users room) sid \<noteq> [] \<longrightarrow>
             Map_get (rooms (fst (disconnect sid s))) (roomId session) =
               Some (room\<lparr>users := Map_delete (users room) sid\<rparr>)
             \<and> (rid \<noteq> roomId session \<longrightarrow>
                  Map_get (rooms (fst (join_room now sid rid uname ulang s))) (roomId session) =
                    Some (room\<lparr>users := Map_delete (users room) sid\<rparr>))))
   \<and> api_get_room (snd (api_post_room uuid now s)) (fst (api_post_room uuid now s)) =
        RoomInfo (snd (api_post_room uuid now s)) 0 [] now"
proof (intro conjI impI)
  show "no_empty_room init_server" by (simp add: no_empty_room_def init_server_def)
  show "members_registered init_server" by (simp add: members_registered_def init_server_def)
  show "wf_server init_server" by (rule init_server_wf)
  show "no_empty_room (fst (handle w now sid msg s))" if "no_empty_room s"
    using that by (rule handle_no_empty)
  show "wf_server (fst (handle w now sid msg s))" if "wf_server s"
    using that by (rule handle_wf)
  show "members_registered (fst (handle w now sid msg s))"
    if "wf_server s" "members_registered s"
    using that by (rule handle_members_registered)
  show "api_get_room (snd (api_post_room uuid now s)) (fst (api_post_room uuid now s)) =
        RoomInfo (snd (api_post_room uuid now s)) 0 [] now"
    by (simp add: api_post_room_def api_get_room_def Let_def Map_get_def Map_set_def
        Map_size_def AList.update_conv')
next
  assume a: "Map_get (userSessions s) sid = Some session"
    "Map_get (rooms s) (roomId session) = Some room" "Map_keys (users room) = [sid]"
  from a(1) have d: "rooms (fst (disconnect sid s)) = fst (leave_room sid session (rooms s))"
    by (simp add: disconnect_def split: prod.splits)
  with leave_room_last [OF a(2,3)]
  show g: "Map_get (rooms (fst (disconnect sid s))) (roomId session) = None" by simp
  then show "api_get_room (roomId session) (fst (disconnect sid s)) = NotFound ''Room not found''"
    by (simp add: api_get_room_def)
  assume n: "rid \<noteq> roomId session"
  from a(1) obtain room' where
    "rooms (fst (join_room now sid rid uname ulang s)) =
       Map_set (fst (leave_room sid session (rooms s))) rid room'"
    by (simp add: join_room_def Let_def case_prod_beta)
  with n leave_room_last [OF a(2,3)]
  have "Map_get (rooms (fst (join_room now sid rid uname ulang s))) (roomId session) = None"
    by (simp add: Map_get_def Map_set_def AList.update_conv')
  then show "api_get_room (roomId session) (fst (join_room now sid rid uname ulang s)) =
               NotFound ''Room not found''"
    by (simp add: api_get_room_def)
next
  assume a: "Map_get (userSessions s) sid = Some session"
    "Map_get (rooms s) (roomId session) = Some room" "Map_delete (users room) sid \<noteq> []"
  from a(1) have d: "rooms (fst (disconnect sid s)) = fst (leave_room sid session (rooms s))"
    by (simp add: disconnect_def split: prod.splits)
  with leave_room_others [OF a(2,3)]
  show "Map_get (rooms (fst (disconnect sid s))) (roomId session) =
               Some (room\<lparr>users := Map_delete (users room) sid\<rparr>)" by simp
  assume n: "rid \<noteq> roomId session"
  from a(1) obtain room' where
    "rooms (fst (join_room now sid rid uname ulang s)) =
       Map_set (fst (leave_room sid session (rooms s))) rid room'"
    by (simp add: join_room_def Let_def case_prod_beta)
  with n leave_room_others [OF a(2,3)]
  show "Map_get (rooms (fst (join_room now sid rid uname ulang s))) (roomId session) =
                    Some (room\<lparr>users := Map_delete (users room) sid\<rparr>)"
    by (simp add: Map_get_def Map_set_def AList.update_conv')
qed

text \<open>
  The amended claim C6 for Alice alone in room R1: after her disconnect, or after she joins
  R2, the room-info query for R1 answers \<^verbatim>\<open>Room not found\<close>. With Bob in the room as
  well, R1 stays registered after either step, with Bob as its only member.
\<close>

theorem room_registered_while_inhabited_witness:
  "no_empty_room alice_alone \<and> wf_server alice_alone \<and> members_registered alice_alone
   \<and> no_empty_room (fst (handle hola_world 5 ''alice'' Disconnect alice_alone))
   \<and> members_registered (fst (handle hola_world 5 ''alice'' Disconnect alice_alone))
   \<and> Map_get (userSessions alice_alone) ''alice'' =
       Some \<lparr>userName = ''Alice'', userLanguage = ''en'', roomId = ''R1''\<rparr>
   \<and> Map_keys (users (snd (hd (rooms alice_alone)))) = [''alice'']
   \<and> api_get_room ''R1'' alice_alone =
       RoomInfo ''R1'' 1 [(''alice'', ''Alice'', ''en'', 1)] 1
   \<and> api_get_room ''R1'' (fst (disconnect ''alice'' alice_alone)) = NotFound ''Room not found''
   \<and> api_get_room ''R1'' (fst (join_room 5 ''alice'' ''R2'' ''Alice'' ''en'' alice_alone)) =
       NotFound ''Room not found''
   \<and> wf_server alice_bob \<and> members_registered alice_bob
   \<and> members_registered (fst (handle hola_world 5 ''alice'' Disconnect alice_bob))
   \<and> Map_delete (users (snd (hd (rooms alice_bob)))) ''alice'' \<noteq> []
   \<and> api_get_room ''R1'' (fst (disconnect ''alice'' alice_bob)) =
       RoomInfo ''R1'' 1 [(''bob'', ''Bob'', ''es'', 2)] 1
   \<and> api_get_room ''R1'' (fst (join_room 5 ''alice'' ''R2'' ''Alice'' ''en'' alice_bob)) =
       RoomInfo ''R1'' 1 [(''bob'', ''Bob'', ''es'', 2)] 1"
  using room_registered_while_inhabited
    [of alice_alone hola_world 5 "''alice''" Disconnect
        "\<lparr>userName = ''Alice'', userLanguage = ''en'', roomId = ''R1''\<rparr>"
        "snd (hd (rooms alice_alone))" "''R2''" "''Alice''" "''en''"]
    room_registered_while_inhabited
    [of alice_bob hola_world 5 "''alice''" Disconnect
        "\<lparr>userName = ''Alice'', userLanguage = ''en'', roomId = ''R1''\<rparr>"
        "snd (hd (rooms alice_bob))" "''R2''" "''Alice''" "''en''"]
  by (simp add: alice_alone_eq alice_bob_eq no_empty_room_def members_registered_def
      wf_server_def is_Map_def api_get_room_def Map_get_def Map_has_def Map_keys_def
      Map_size_def Map_delete_def)

end
